theory Spec2Isabelle
  imports Complex_Main
begin

section \<open>Python values, exceptions and the outside world\<close>

text \<open>
  The exceptions the script can raise. A function of the script that may raise returns a
  sum, \<open>Inl\<close> carrying the exception. \<open>HTTPError\<close> carries the status code of the response.
\<close>

datatype error =
    KeyError | TypeError | ValueError | AttributeError | FileNotFoundError
  | JSONDecodeError | ConnectionError | HTTPError nat

text \<open>
  What \<open>response.json()\<close> returns: a decoded JSON document. A dictionary is an association
  list (looked up with \<open>map_of\<close>), a finite float is the real number it denotes, and
  \<open>JNonfinite\<close> stands for the floats \<open>nan\<close>, \<open>inf\<close> and \<open>-inf\<close>, which Python's decoder
  accepts as well. A \<open>char\<close> stands for one character of a Python \<open>str\<close>.
\<close>

datatype json =
    JNull | JBool bool | JInt int | JFloat real | JNonfinite
  | JStr string | JList "json list" | JObj "(string \<times> json) list"

text \<open>
  The state the script changes: the files under their paths, with the text stored in each,
  and what has been printed, one entry for each call of \<open>print\<close> holding its arguments.
  A path is taken as it is written, so a file name is assumed to be one path component
  (the main loop replaces \<open>/\<close> in a username before it reaches \<open>save_report\<close>), and
  \<open>os.rename\<close> is the POSIX one, which replaces an existing target (the archival names
  contain \<open>:\<close>, which only POSIX file names allow).
\<close>

record world =
  files :: "string \<rightharpoonup> string"
  stdout :: "json list list"

definition print :: "json list \<Rightarrow> world \<Rightarrow> world" where
  "print args w = w\<lparr>stdout := stdout w @ [args]\<rparr>"

definition isfile :: "world \<Rightarrow> string \<Rightarrow> bool" where
  "isfile w path = (files w path \<noteq> None)"

definition os_rename :: "string \<Rightarrow> string \<Rightarrow> world \<Rightarrow> (error + unit) \<times> world" where
  "os_rename src dst w =
     (case files w src of
        None \<Rightarrow> (Inl FileNotFoundError, w)
      | Some text \<Rightarrow> (Inr (), w\<lparr>files := ((files w)(src := None))(dst \<mapsto> text)\<rparr>))"

definition os_remove :: "string \<Rightarrow> world \<Rightarrow> (error + unit) \<times> world" where
  "os_remove path w =
     (case files w path of
        None \<Rightarrow> (Inl FileNotFoundError, w)
      | Some text \<Rightarrow> (Inr (), w\<lparr>files := (files w)(path := None)\<rparr>))"

text \<open>
  Reading a file opened in text mode translates every line ending (\<open>\r\n\<close> and a lone
  \<open>\r\<close>) to \<open>\n\<close>. The flag of \<open>universal_newlines\<close> records that the character before was
  a carriage return.
\<close>

fun universal_newlines :: "bool \<Rightarrow> string \<Rightarrow> string" where
  "universal_newlines after_cr [] = []"
| "universal_newlines after_cr (c # cs) =
     (if c = CHR 0x0D then CHR 0x0A # universal_newlines True cs
      else if c = CHR 0x0A \<and> after_cr then universal_newlines False cs
      else c # universal_newlines False cs)"

definition read_text :: "string \<Rightarrow> string" where
  "read_text stored = universal_newlines False stored"

text \<open>
  What \<open>open(path, "w")\<close> followed by \<open>write(report)\<close> does is decided outside the script:
  the report is stored whole, or \<open>open\<close> raises and no file appears, or the file is created
  and an exception is raised when only some text (any text) has reached it.
\<close>

datatype write_outcome = Write_ok | Open_failed | Write_torn string

section \<open>Regular expressions\<close>

text \<open>
  The two patterns of the script are sequences of literal characters, of \<open>.\<close> (any character
  but a newline) and of named groups \<open>(?P<name>[0-9]{n})\<close>. \<open>re_match\<close> is \<open>re.match\<close>: the
  pattern has to match a prefix of the text, and the result holds the text of each group.
  \<open>re_search\<close> is \<open>re.search\<close>: the leftmost position where the pattern matches.
\<close>

datatype re_token = Lit char | Any_char | Digits string nat

definition is_digit :: "char \<Rightarrow> bool" where
  "is_digit c = (c \<in> set ''0123456789'')"

fun re_match :: "re_token list \<Rightarrow> string \<Rightarrow> (string \<times> string) list option" where
  "re_match [] s = Some []"
| "re_match (Lit c # r) s =
     (case s of [] \<Rightarrow> None | d # t \<Rightarrow> if d = c then re_match r t else None)"
| "re_match (Any_char # r) s =
     (case s of [] \<Rightarrow> None | d # t \<Rightarrow> if d \<noteq> CHR 0x0A then re_match r t else None)"
| "re_match (Digits name n # r) s =
     (if n \<le> length s \<and> list_all is_digit (take n s)
      then map_option (\<lambda>groups. (name, take n s) # groups) (re_match r (drop n s))
      else None)"

fun re_search :: "re_token list \<Rightarrow> string \<Rightarrow> (string \<times> string) list option" where
  "re_search r [] = re_match r []"
| "re_search r (c # cs) =
     (case re_match r (c # cs) of Some groups \<Rightarrow> Some groups | None \<Rightarrow> re_search r cs)"

definition group :: "(string \<times> string) list \<Rightarrow> string \<Rightarrow> string" where
  "group groups name = (case map_of groups name of Some text \<Rightarrow> text | None \<Rightarrow> [])"

text \<open>\<open>int(s)\<close> on a string of ASCII digits.\<close>

definition digit_value :: "char \<Rightarrow> nat" where
  "digit_value c = of_char c - 48"

definition int_of_digits :: "string \<Rightarrow> nat" where
  "int_of_digits s = foldl (\<lambda>n c. 10 * n + digit_value c) 0 s"

section \<open>Dates\<close>

text \<open>
  \<open>datetime.datetime(year, month, day, hour, minute)\<close> raises \<open>ValueError\<close> outside the
  proleptic Gregorian calendar of the years 1 to 9999. The difference of two datetimes is a
  \<open>timedelta\<close>; it is represented by its length in microseconds, which is what the comparison
  of two timedeltas compares.
\<close>

record datetime =
  year :: nat
  month :: nat
  day :: nat
  hour :: nat
  minute :: nat
  second :: nat
  microsecond :: nat

definition is_leap :: "nat \<Rightarrow> bool" where
  "is_leap y = (y mod 4 = 0 \<and> (y mod 100 \<noteq> 0 \<or> y mod 400 = 0))"

definition days_in_month :: "nat \<Rightarrow> nat \<Rightarrow> nat" where
  "days_in_month y m =
     (if m = 2 then (if is_leap y then 29 else 28)
      else if m = 4 \<or> m = 6 \<or> m = 9 \<or> m = 11 then 30 else 31)"

definition datetime_new :: "nat \<Rightarrow> nat \<Rightarrow> nat \<Rightarrow> nat \<Rightarrow> nat \<Rightarrow> error + datetime" where
  "datetime_new y m d h mi =
     (if 1 \<le> y \<and> y \<le> 9999 \<and> 1 \<le> m \<and> m \<le> 12 \<and> 1 \<le> d \<and> d \<le> days_in_month y m
         \<and> h \<le> 23 \<and> mi \<le> 59
      then Inr \<lparr>year = y, month = m, day = d, hour = h, minute = mi,
                second = 0, microsecond = 0\<rparr>
      else Inl ValueError)"

definition days_before_year :: "nat \<Rightarrow> int" where
  "days_before_year y =
     (let p = int y - 1 in p * 365 + p div 4 - p div 100 + p div 400)"

definition days_before_month :: "nat \<Rightarrow> nat \<Rightarrow> int" where
  "days_before_month y m =
     [0, 31, 59, 90, 120, 151, 181, 212, 243, 273, 304, 334] ! (m - 1)
       + (if 2 < m \<and> is_leap y then 1 else 0)"

definition to_ordinal :: "datetime \<Rightarrow> int" where
  "to_ordinal t = days_before_year (year t) + days_before_month (year t) (month t) + int (day t)"

definition to_microseconds :: "datetime \<Rightarrow> int" where
  "to_microseconds t =
     (((to_ordinal t * 24 + int (hour t)) * 60 + int (minute t)) * 60 + int (second t)) * 1000000
       + int (microsecond t)"

definition timedelta :: "datetime \<Rightarrow> datetime \<Rightarrow> int" where
  "timedelta a b = to_microseconds a - to_microseconds b"

section \<open>The report files\<close>

text \<open>
  \<open>get_date\<close> returns the reformatted date as a string, or the integer 0 when the text of
  the file has no date.
\<close>

datatype date_value = Date_str string | Date_zero

definition date_re :: "re_token list" where
  "date_re =
     [Digits ''day'' 2, Any_char, Digits ''month'' 2, Any_char, Digits ''year'' 4,
      Lit CHR '' '', Digits ''hour'' 2, Lit CHR '':'', Digits ''minute'' 2]"

definition date_format :: "(string \<times> string) list \<Rightarrow> string" where
  "date_format m =
     group m ''year'' @ ''-'' @ group m ''month'' @ ''-'' @ group m ''day'' @ ''T''
       @ group m ''hour'' @ '':'' @ group m ''minute''"

definition get_date :: "world \<Rightarrow> string \<Rightarrow> error + date_value" where
  "get_date w path =
     (case files w path of
        None \<Rightarrow> Inl FileNotFoundError
      | Some stored \<Rightarrow>
          (case re_search date_re (read_text stored) of
             Some m \<Rightarrow> Inr (Date_str (date_format m))
           | None \<Rightarrow> Inr Date_zero))"

definition validate_file :: "world \<Rightarrow> string \<Rightarrow> string \<Rightarrow> bool option" where
  "validate_file w file_path report =
     (case files w file_path of
        Some stored \<Rightarrow> Some (read_text stored = report)
      | None \<Rightarrow> None)"

text \<open>The f-string puts \<open>str(date)\<close> into the name, which is \<open>0\<close> for the integer 0.\<close>

definition str_date :: "date_value \<Rightarrow> string" where
  "str_date d = (case d of Date_str s \<Rightarrow> s | Date_zero \<Rightarrow> ''0'')"

definition create_filename :: "string \<Rightarrow> date_value option \<Rightarrow> string" where
  "create_filename username date =
     (case date of
        None \<Rightarrow> username @ ''.txt''
      | Some d \<Rightarrow> ''old_'' @ username @ ''_'' @ str_date d @ ''.txt'')"

text \<open>
  The pattern of \<open>get_last_report\<close>. The username is put into the pattern as it is, so a
  \<open>.\<close> in it is the pattern \<open>.\<close>. \<open>archive_re\<close> is the pattern of the script only for the
  usernames in which no other character is special to \<open>re\<close> (\<open>plain_username\<close>). For
  another username, such as one with the brackets of the \<open>(f_slash)\<close> that the main loop
  puts in, \<open>archive_re\<close> and the search built on it are not those of the script: what is
  stated below about the names the search accepts, returns or restores is stated for the
  usernames of \<open>plain_username\<close>, and the lemmas about the loop of the search are used for
  these usernames only.
\<close>

definition plain_username :: "string \<Rightarrow> bool" where
  "plain_username username = (\<forall>c \<in> set username. c \<notin> set (CHR 0x5C # ''^$*+?{}[]()|''))"

definition username_token :: "char \<Rightarrow> re_token" where
  "username_token c = (if c = CHR ''.'' then Any_char else Lit c)"

definition archive_re :: "string \<Rightarrow> re_token list" where
  "archive_re username =
     map Lit ''old_'' @ map username_token username
       @ [Lit CHR ''_'', Digits ''year'' 4, Lit CHR ''-'', Digits ''month'' 2, Lit CHR ''-'',
          Digits ''day'' 2, Lit CHR ''T'', Digits ''hour'' 2, Lit CHR '':'',
          Digits ''minute'' 2, Any_char]
       @ map Lit ''txt''"

definition file_date :: "(string \<times> string) list \<Rightarrow> error + datetime" where
  "file_date m =
     datetime_new (int_of_digits (group m ''year'')) (int_of_digits (group m ''month''))
       (int_of_digits (group m ''day'')) (int_of_digits (group m ''hour''))
       (int_of_digits (group m ''minute''))"

text \<open>
  The loop of \<open>get_last_report\<close> over the names of the directory, with its two variables
  \<open>min_dif\<close> and \<open>last_report\<close>.
\<close>

fun scan_reports ::
  "datetime \<Rightarrow> string \<Rightarrow> string list \<Rightarrow> int option \<Rightarrow> string option \<Rightarrow> error + string option"
where
  "scan_reports today username [] min_dif last_report = Inr last_report"
| "scan_reports today username (file_name # file_names) min_dif last_report =
     (case re_match (archive_re username) file_name of
        None \<Rightarrow> scan_reports today username file_names min_dif last_report
      | Some m \<Rightarrow>
          (case file_date m of
             Inl e \<Rightarrow> Inl e
           | Inr date \<Rightarrow>
               (let diff = timedelta today date;
                    (min_dif1, last_report1) =
                      (if min_dif = None then (Some diff, Some file_name)
                       else (min_dif, last_report));
                    (min_dif2, last_report2) =
                      (if (case min_dif1 of Some d \<Rightarrow> diff < d | None \<Rightarrow> False)
                       then (Some diff, Some file_name)
                       else (min_dif1, last_report1))
                in scan_reports today username file_names min_dif2 last_report2)))"

text \<open>
  What \<open>save_report\<close> meets outside the script: the clock, the outcome of the write, and
  the order in which \<open>os.listdir\<close> lists the names of a directory.
\<close>

record save_env =
  today :: datetime
  disk_write :: write_outcome
  listdir :: "(string \<rightharpoonup> string) \<Rightarrow> string list"

definition get_last_report :: "save_env \<Rightarrow> string \<Rightarrow> world \<Rightarrow> error + string option" where
  "get_last_report env username w =
     scan_reports (today env) username (listdir env (files w)) None None"

definition report_path :: "string \<Rightarrow> string" where
  "report_path username = ''tasks/'' @ create_filename username None"

definition new_path :: "string \<Rightarrow> date_value \<Rightarrow> string" where
  "new_path username date = ''tasks/'' @ create_filename username (Some date)"

text \<open>Lines 188 to 191 of \<open>save_report\<close>: the existing report is renamed.\<close>

definition check_and_archive :: "string \<Rightarrow> world \<Rightarrow> (error + unit) \<times> world" where
  "check_and_archive username w =
     (if isfile w (report_path username) then
        (case get_date w (report_path username) of
           Inl e \<Rightarrow> (Inl e, w)
         | Inr date \<Rightarrow> os_rename (report_path username) (new_path username date) w)
      else (Inr (), w))"

text \<open>Lines 193 to 197: the write, with its exception caught and reported.\<close>

definition write_report :: "write_outcome \<Rightarrow> string \<Rightarrow> string \<Rightarrow> world \<Rightarrow> world" where
  "write_report outcome path report w =
     (case outcome of
        Write_ok \<Rightarrow> w\<lparr>files := (files w)(path \<mapsto> report)\<rparr>
      | Open_failed \<Rightarrow>
          print [JStr (''Error occured while writing to file '' @ path)] w
      | Write_torn text \<Rightarrow>
          print [JStr (''Error occured while writing to file '' @ path)]
            (w\<lparr>files := (files w)(path \<mapsto> text)\<rparr>))"

text \<open>Lines 199 to 205: the \<open>finally\<close> block.\<close>

definition reconcile :: "save_env \<Rightarrow> string \<Rightarrow> string \<Rightarrow> world \<Rightarrow> (error + unit) \<times> world" where
  "reconcile env report username w =
     (let file_is_valid = validate_file w (report_path username) report in
      if file_is_valid \<noteq> Some True then
        (case (if file_is_valid = Some False then os_remove (report_path username) w
               else (Inr (), w)) of
           (Inl e, w1) \<Rightarrow> (Inl e, w1)
         | (Inr u, w1) \<Rightarrow>
             (case get_last_report env username w1 of
                Inl e \<Rightarrow> (Inl e, w1)
              | Inr None \<Rightarrow> (Inr (), w1)
              | Inr (Some last_report) \<Rightarrow>
                  os_rename (''tasks/'' @ last_report) (report_path username) w1))
      else (Inr (), w))"

definition written :: "save_env \<Rightarrow> string \<Rightarrow> string \<Rightarrow> world \<Rightarrow> world" where
  "written env report username w =
     write_report (disk_write env) (report_path username) report
       (snd (check_and_archive username w))"

definition save_report :: "save_env \<Rightarrow> string \<Rightarrow> string \<Rightarrow> world \<Rightarrow> (error + unit) \<times> world" where
  "save_report env report username w =
     (case fst (check_and_archive username w) of
        Inl e \<Rightarrow> (Inl e, snd (check_and_archive username w))
      | Inr u \<Rightarrow> reconcile env report username (written env report username w))"

section \<open>Records of the remote service\<close>

text \<open>
  \<open>value[key]\<close> with a string key: a dictionary without the key raises \<open>KeyError\<close>, and a
  value that is no dictionary raises \<open>TypeError\<close>. A decoded dictionary has each key once.
\<close>

definition subscript :: "json \<Rightarrow> string \<Rightarrow> error + json" where
  "subscript v key =
     (case v of
        JObj items \<Rightarrow> (case map_of items key of Some x \<Rightarrow> Inr x | None \<Rightarrow> Inl KeyError)
      | _ \<Rightarrow> Inl TypeError)"

definition user_fields :: "json \<Rightarrow> error + json \<times> json \<times> json" where
  "user_fields user =
     (case subscript user ''company'' of
        Inl e \<Rightarrow> Inl e
      | Inr c \<Rightarrow>
          (case subscript c ''name'' of
             Inl e \<Rightarrow> Inl e
           | Inr company \<Rightarrow>
               (case subscript user ''name'' of
                  Inl e \<Rightarrow> Inl e
                | Inr fullname \<Rightarrow>
                    (case subscript user ''email'' of
                       Inl e \<Rightarrow> Inl e
                     | Inr email \<Rightarrow> Inr (company, fullname, email)))))"

definition validate_user :: "json \<Rightarrow> world \<Rightarrow> (error + bool) \<times> world" where
  "validate_user user w =
     (case user_fields user of
        Inl KeyError \<Rightarrow> (Inr False, print [JStr ''User object is malformed''] w)
      | Inl e \<Rightarrow> (Inl e, w)
      | Inr found \<Rightarrow> (Inr True, w))"

definition todo_fields :: "json \<Rightarrow> error + json \<times> json" where
  "todo_fields todo =
     (case subscript todo ''title'' of
        Inl e \<Rightarrow> Inl e
      | Inr title \<Rightarrow>
          (case subscript todo ''completed'' of
             Inl e \<Rightarrow> Inl e
           | Inr completed \<Rightarrow> Inr (title, completed)))"

definition validate_todo :: "json \<Rightarrow> world \<Rightarrow> (error + bool) \<times> world" where
  "validate_todo todo w =
     (case todo_fields todo of
        Inl KeyError \<Rightarrow> (Inr False, print [JStr ''ToDo object is malformed''] w)
      | Inl e \<Rightarrow> (Inl e, w)
      | Inr found \<Rightarrow> (Inr True, w))"

section \<open>The data fetcher\<close>

text \<open>
  A response of \<open>requests.get\<close>: its status code and its body, \<open>None\<close> when the body is no
  JSON document (\<open>json()\<close> raises then). \<open>raise_for_status\<close> is the one of the \<open>requests\<close>
  library, which raises for the client and server error codes, 400 to 599, and returns for
  every other code. A server gives, for a page number, the response or the exception of
  the transport.
\<close>

record response =
  status_code :: nat
  body :: "json option"

type_synonym server = "nat \<Rightarrow> error + response"

definition raise_for_status :: "response \<Rightarrow> error + unit" where
  "raise_for_status page =
     (if 400 \<le> status_code page \<and> status_code page < 600
      then Inl (HTTPError (status_code page)) else Inr ())"

definition response_json :: "response \<Rightarrow> error + json" where
  "response_json page = (case body page of None \<Rightarrow> Inl JSONDecodeError | Some j \<Rightarrow> Inr j)"

text \<open>
  \<open>get_users\<close> and \<open>get_todos\<close> are generators with the same loop. \<open>fetch_step\<close> is one
  round of it, from the request for \<open>page_num\<close> to the \<open>yield\<close>: it yields the page and the
  next value of \<open>page_num\<close>, or leaves the loop, or raises. Both generators start with
  \<open>page_num = 1\<close>.
\<close>

datatype step = Yield json nat | Stop | Raise error

definition fetch_step :: "server \<Rightarrow> nat \<Rightarrow> step" where
  "fetch_step srv page_num =
     (case srv page_num of
        Inl e \<Rightarrow> Raise e
      | Inr page \<Rightarrow>
          (case (if status_code page \<noteq> 200 then raise_for_status page else Inr ()) of
             Inl e \<Rightarrow> Raise e
           | Inr u \<Rightarrow>
               (case response_json page of
                  Inl e \<Rightarrow> Raise e
                | Inr j \<Rightarrow> if j = JList [] then Stop else Yield j (page_num + 1))))"

text \<open>
  What a consumer that takes at most \<open>n\<close> pages gets from a generator whose next request
  is for \<open>page_num\<close>: the pages yielded, and how the generator ended, if it did.
\<close>

datatype ending = Exhausted | Failed error | Suspended

fun pages :: "server \<Rightarrow> nat \<Rightarrow> nat \<Rightarrow> json list \<times> ending" where
  "pages srv 0 page_num = ([], Suspended)"
| "pages srv (Suc n) page_num =
     (case fetch_step srv page_num of
        Raise e \<Rightarrow> ([], Failed e)
      | Stop \<Rightarrow> ([], Exhausted)
      | Yield page next_num \<Rightarrow>
          (case pages srv n next_num of (rest, how) \<Rightarrow> (page # rest, how)))"

text \<open>The page numbers requested in that run.\<close>

fun requested :: "server \<Rightarrow> nat \<Rightarrow> nat \<Rightarrow> nat list" where
  "requested srv 0 page_num = []"
| "requested srv (Suc n) page_num =
     page_num #
       (case fetch_step srv page_num of
          Yield page next_num \<Rightarrow> requested srv n next_num
        | _ \<Rightarrow> [])"

section \<open>The report composer\<close>

text \<open>
  \<open>for x in value\<close>: a list gives its elements, a dictionary its keys, a string its
  characters; nothing else can be iterated.
\<close>

definition iterate :: "json \<Rightarrow> error + json list" where
  "iterate v =
     (case v of
        JList xs \<Rightarrow> Inr xs
      | JObj items \<Rightarrow> Inr (map (\<lambda>item. JStr (fst item)) items)
      | JStr s \<Rightarrow> Inr (map (\<lambda>c. JStr [c]) s)
      | _ \<Rightarrow> Inl TypeError)"

definition py_len :: "json \<Rightarrow> error + nat" where
  "py_len v =
     (case v of
        JStr s \<Rightarrow> Inr (length s)
      | JList xs \<Rightarrow> Inr (length xs)
      | JObj items \<Rightarrow> Inr (length items)
      | _ \<Rightarrow> Inl TypeError)"

text \<open>
  \<open>title[:46] + "..."\<close>: only a string can be sliced and then joined with a string. A
  list is sliced, and joining the slice with a string raises \<open>TypeError\<close>. A dictionary
  cannot be sliced: the slice is taken as a key, which raises \<open>KeyError\<close> where slices are
  hashable (Python 3.12 and later, \<open>hashable_slices\<close>) and \<open>TypeError\<close> before.
\<close>

definition clip :: "bool \<Rightarrow> json \<Rightarrow> error + json" where
  "clip hashable_slices title =
     (case title of
        JStr s \<Rightarrow> Inr (JStr (take 46 s @ ''...''))
      | JObj items \<Rightarrow> Inl (if hashable_slices then KeyError else TypeError)
      | _ \<Rightarrow> Inl TypeError)"

text \<open>
  \<open>value == False\<close> and \<open>value == True\<close>: Python's booleans are the integers 0 and 1, so a
  number equal to 0 or 1 is equal to \<open>False\<close> or \<open>True\<close>.
\<close>

definition eq_bool :: "json \<Rightarrow> bool \<Rightarrow> bool" where
  "eq_bool v b =
     (case v of
        JBool c \<Rightarrow> c = b
      | JInt i \<Rightarrow> i = (if b then 1 else 0)
      | JFloat r \<Rightarrow> r = (if b then 1 else 0)
      | _ \<Rightarrow> False)"

definition newline :: string where
  "newline = [CHR 0x0A]"

text \<open>\<open>"- " + title + "\n"\<close>: a title that is no string raises.\<close>

definition task_line :: "json \<Rightarrow> error + string" where
  "task_line title = (case title of JStr s \<Rightarrow> Inr (''- '' @ s @ newline) | _ \<Rightarrow> Inl TypeError)"

record tasks =
  cur_tasks :: string
  comp_tasks :: string
  cur_total :: nat
  comp_total :: nat

text \<open>
  The body of the inner loop of \<open>create_report\<close>, lines 140 to 148, for one task. Its
  first argument says whether the interpreter has hashable slices.
\<close>

definition add_task :: "bool \<Rightarrow> json \<Rightarrow> tasks \<Rightarrow> world \<Rightarrow> (error + tasks) \<times> world" where
  "add_task hashable_slices task acc w =
     (case validate_todo task w of
        (Inl e, w1) \<Rightarrow> (Inl e, w1)
      | (Inr False, w1) \<Rightarrow> (Inr acc, w1)
      | (Inr True, w1) \<Rightarrow>
          (case todo_fields task of
             Inl e \<Rightarrow> (Inl e, w1)
           | Inr (title0, completed) \<Rightarrow>
               (case py_len title0 of
                  Inl e \<Rightarrow> (Inl e, w1)
                | Inr n \<Rightarrow>
                    (case (if 46 < n then clip hashable_slices title0 else Inr title0) of
                       Inl e \<Rightarrow> (Inl e, w1)
                     | Inr title \<Rightarrow>
                         if eq_bool completed False then
                           (case task_line title of
                              Inl e \<Rightarrow> (Inl e, w1)
                            | Inr line \<Rightarrow>
                                (Inr (acc\<lparr>cur_tasks := cur_tasks acc @ line,
                                          cur_total := cur_total acc + 1\<rparr>), w1))
                         else if eq_bool completed True then
                           (case task_line title of
                              Inl e \<Rightarrow> (Inl e, w1)
                            | Inr line \<Rightarrow>
                                (Inr (acc\<lparr>comp_tasks := comp_tasks acc @ line,
                                          comp_total := comp_total acc + 1\<rparr>), w1))
                         else (Inr acc, w1)))))"

fun add_tasks :: "bool \<Rightarrow> json list \<Rightarrow> tasks \<Rightarrow> world \<Rightarrow> (error + tasks) \<times> world" where
  "add_tasks hashable_slices [] acc w = (Inr acc, w)"
| "add_tasks hashable_slices (task # page) acc w =
     (case add_task hashable_slices task acc w of
        (Inl e, w1) \<Rightarrow> (Inl e, w1)
      | (Inr acc1, w1) \<Rightarrow> add_tasks hashable_slices page acc1 w1)"

text \<open>
  The outer loop, over the pages of \<open>get_todos\<close>. The server may never send an empty page,
  so the loop is a partial function: \<open>None\<close> is the run that does not end.
\<close>

partial_function (option) todo_pages ::
  "bool \<Rightarrow> server \<Rightarrow> nat \<Rightarrow> tasks \<Rightarrow> world \<Rightarrow> ((error + tasks) \<times> world) option"
where
  "todo_pages hashable_slices srv page_num acc w =
     (case fetch_step srv page_num of
        Raise e \<Rightarrow> Some (Inl e, w)
      | Stop \<Rightarrow> Some (Inr acc, w)
      | Yield page next_num \<Rightarrow>
          (case iterate page of
             Inl e \<Rightarrow> Some (Inl e, w)
           | Inr page_tasks \<Rightarrow>
               (case add_tasks hashable_slices page_tasks acc w of
                  (Inl e, w1) \<Rightarrow> Some (Inl e, w1)
                | (Inr acc1, w1) \<Rightarrow> todo_pages hashable_slices srv next_num acc1 w1)))"

text \<open>
  Decimal numbers, and \<open>strftime("%d.%m.%Y %H:%M")\<close>: day, month, hour and minute have
  two digits, and the year is written without padding, as the C library of Linux does
  (the year of the clock has four digits).
\<close>

fun show_nat :: "nat \<Rightarrow> string" where
  "show_nat n =
     (if n < 10 then [''0123456789'' ! n]
      else show_nat (n div 10) @ [''0123456789'' ! (n mod 10)])"

definition zero_pad :: "nat \<Rightarrow> nat \<Rightarrow> string" where
  "zero_pad width n = replicate (width - length (show_nat n)) CHR ''0'' @ show_nat n"

definition strftime :: "datetime \<Rightarrow> string" where
  "strftime t =
     zero_pad 2 (day t) @ ''.'' @ zero_pad 2 (month t) @ ''.'' @ show_nat (year t) @ '' ''
       @ zero_pad 2 (hour t) @ '':'' @ zero_pad 2 (minute t)"

text \<open>
  What the whole run meets outside the script: the two endpoints (the tasks one answers
  for a \<open>userId\<close>), the text \<open>str\<close> gives for a value that is no string, whether the
  interpreter has hashable slices, and, for the user at position \<open>i\<close> of the page \<open>n\<close>,
  the clock read by \<open>create_report\<close> and what \<open>save_report\<close> meets.
\<close>

record env =
  users_server :: server
  todos_server :: "json \<Rightarrow> server"
  str_of :: "json \<Rightarrow> string"
  hashable_slices :: bool
  clock :: "nat \<Rightarrow> nat \<Rightarrow> datetime"
  saving :: "nat \<Rightarrow> nat \<Rightarrow> save_env"

definition format_field :: "env \<Rightarrow> json \<Rightarrow> string" where
  "format_field env v = (case v of JStr s \<Rightarrow> s | _ \<Rightarrow> str_of env v)"

definition render :: "env \<Rightarrow> json \<Rightarrow> json \<Rightarrow> json \<Rightarrow> string \<Rightarrow> tasks \<Rightarrow> string" where
  "render env company fullname email time acc =
     ''# Report for '' @ format_field env company @ ''.'' @ newline
       @ format_field env fullname @ '' <'' @ format_field env email @ ''> '' @ time @ newline
       @ ''Total tasks: '' @ show_nat (cur_total acc + comp_total acc) @ newline
       @ newline @ ''## Current tasks ('' @ show_nat (cur_total acc) @ ''):'' @ newline
       @ cur_tasks acc
       @ newline @ ''## Completed tasks ('' @ show_nat (comp_total acc) @ ''):'' @ newline
       @ comp_tasks acc"

definition create_report ::
  "env \<Rightarrow> nat \<Rightarrow> nat \<Rightarrow> json \<Rightarrow> world \<Rightarrow> ((error + string option) \<times> world) option"
where
  "create_report env n i user w =
     (case user_fields user of
        Inl e \<Rightarrow> Some (Inl e, w)
      | Inr (company, fullname, email) \<Rightarrow>
          (case subscript user ''id'' of
             Inl e \<Rightarrow> Some (Inl e, w)
           | Inr user_id \<Rightarrow>
               (case todo_pages (hashable_slices env) (todos_server env user_id) 1
                       \<lparr>cur_tasks = [], comp_tasks = [], cur_total = 0, comp_total = 0\<rparr> w of
                  None \<Rightarrow> None
                | Some (Inl e, w1) \<Rightarrow> Some (Inl e, w1)
                | Some (Inr acc, w1) \<Rightarrow>
                    if cur_total acc + comp_total acc = 0 then Some (Inr None, w1)
                    else Some (Inr (Some (render env company fullname email
                                            (strftime (clock env n i)) acc)), w1))))"

section \<open>The main loop\<close>

definition replace_slash :: "string \<Rightarrow> string" where
  "replace_slash s = concat (map (\<lambda>c. if c = CHR ''/'' then ''(f_slash)'' else [c]) s)"

text \<open>The body of the loop over the users of a page, lines 265 to 273.\<close>

definition process_user ::
  "env \<Rightarrow> nat \<Rightarrow> nat \<Rightarrow> json \<Rightarrow> world \<Rightarrow> ((error + unit) \<times> world) option"
where
  "process_user env n i user w =
     (case validate_user user w of
        (Inl e, w1) \<Rightarrow> Some (Inl e, w1)
      | (Inr False, w1) \<Rightarrow>
          (case subscript user ''username'' of
             Inl e \<Rightarrow> Some (Inl e, w1)
           | Inr name \<Rightarrow> Some (Inr (), print [name, JStr '' doesn't have required''] w1))
      | (Inr True, w1) \<Rightarrow>
          (case create_report env n i user w1 of
             None \<Rightarrow> None
           | Some (Inl e, w2) \<Rightarrow> Some (Inl e, w2)
           | Some (Inr None, w2) \<Rightarrow>
               (case subscript user ''username'' of
                  Inl e \<Rightarrow> Some (Inl e, w2)
                | Inr name \<Rightarrow> Some (Inr (), print [name, JStr '' doesn't have todos''] w2))
           | Some (Inr (Some report), w2) \<Rightarrow>
               (case subscript user ''username'' of
                  Inl e \<Rightarrow> Some (Inl e, w2)
                | Inr (JStr name) \<Rightarrow>
                    Some (save_report (saving env n i) report (replace_slash name) w2)
                | Inr other \<Rightarrow> Some (Inl AttributeError, w2))))"

fun process_users ::
  "env \<Rightarrow> nat \<Rightarrow> nat \<Rightarrow> json list \<Rightarrow> world \<Rightarrow> ((error + unit) \<times> world) option"
where
  "process_users env n i [] w = Some (Inr (), w)"
| "process_users env n i (user # page) w =
     (case process_user env n i user w of
        None \<Rightarrow> None
      | Some (Inl e, w1) \<Rightarrow> Some (Inl e, w1)
      | Some (Inr u, w1) \<Rightarrow> process_users env n (i + 1) page w1)"

text \<open>
  The loop over the pages of \<open>get_users\<close>, from the request for \<open>page_num\<close> on; the script
  is \<open>user_pages env 1\<close>. \<open>Inl\<close> is the exception that ends the run.
\<close>

partial_function (option) user_pages ::
  "env \<Rightarrow> nat \<Rightarrow> world \<Rightarrow> ((error + unit) \<times> world) option"
where
  "user_pages env page_num w =
     (case fetch_step (users_server env) page_num of
        Raise e \<Rightarrow> Some (Inl e, w)
      | Stop \<Rightarrow> Some (Inr (), w)
      | Yield page next_num \<Rightarrow>
          (case iterate page of
             Inl e \<Rightarrow> Some (Inl e, w)
           | Inr users \<Rightarrow>
               (case process_users env page_num 0 users w of
                  None \<Rightarrow> None
                | Some (Inl e, w1) \<Rightarrow> Some (Inl e, w1)
                | Some (Inr u, w1) \<Rightarrow> user_pages env next_num w1)))"

definition main :: "env \<Rightarrow> world \<Rightarrow> ((error + unit) \<times> world) option" where
  "main env w = user_pages env 1 w"

section \<open>Inputs used in the examples\<close>

definition clock_reading :: datetime where
  "clock_reading =
     \<lparr>year = 2026, month = 11, day = 3, hour = 18, minute = 59, second = 7,
      microsecond = 123456\<rparr>"

text \<open>A directory listing that shows, of the given names, those present under \<open>tasks/\<close>.\<close>

definition listing_of :: "string list \<Rightarrow> (string \<rightharpoonup> string) \<Rightarrow> string list" where
  "listing_of names fs = filter (\<lambda>name. fs (''tasks/'' @ name) \<noteq> None) names"

definition known_names :: "string list" where
  "known_names =
     [''bob.txt'', ''john.doe.txt'', ''old_bob_0.txt'', ''old_bob_2026-11-03T18:59.txt'',
      ''old_bob_2025-01-31T08:15.txt'', ''old_bob_2026-10-01T09:30.txt'',
      ''old_john.doe_2024-01-01T10:00.txt'', ''old_john_doe_2024-06-01T10:00.txt'']"

definition save_env_of :: "write_outcome \<Rightarrow> save_env" where
  "save_env_of outcome =
     \<lparr>today = clock_reading, disk_write = outcome, listdir = listing_of known_names\<rparr>"

definition bob_report :: string where
  "bob_report = ''# Report for Acme.'' @ newline @ ''Bob <bob@acme.org> 03.11.2026 18:59'' @ newline"

definition world_bob :: world where
  "world_bob = \<lparr>files = [''tasks/bob.txt'' \<mapsto> bob_report], stdout = []\<rparr>"

definition world_bob_archived :: world where
  "world_bob_archived =
     \<lparr>files = [''tasks/bob.txt'' \<mapsto> bob_report,
               ''tasks/old_bob_2026-11-03T18:59.txt'' \<mapsto> ''an earlier report''],
      stdout = []\<rparr>"

definition world_bob_same :: world where
  "world_bob_same =
     \<lparr>files = [''tasks/bob.txt'' \<mapsto> bob_report,
               ''tasks/old_bob_2026-11-03T18:59.txt'' \<mapsto> bob_report],
      stdout = []\<rparr>"

definition world_undated :: world where
  "world_undated = \<lparr>files = [''tasks/bob.txt'' \<mapsto> ''no date''], stdout = []\<rparr>"

definition world_john :: world where
  "world_john =
     \<lparr>files = [''tasks/old_john.doe_2024-01-01T10:00.txt'' \<mapsto> ''report of john.doe'',
               ''tasks/old_john_doe_2024-06-01T10:00.txt'' \<mapsto> ''report of john_doe''],
      stdout = []\<rparr>"

definition world_other :: world where
  "world_other =
     \<lparr>files = [''tasks/old_john_doe_2024-06-01T10:00.txt'' \<mapsto> ''report of john_doe''],
      stdout = []\<rparr>"

definition expo_report :: string where
  "expo_report =
     ''# Report for Expo 01.01.2000 10:00.'' @ newline
       @ ''Bob <bob@acme.org> 03.11.2026 18:59'' @ newline"

definition world_expo :: world where
  "world_expo = \<lparr>files = [''tasks/bob.txt'' \<mapsto> expo_report], stdout = []\<rparr>"

definition world_empty :: world where
  "world_empty = \<lparr>files = Map.empty, stdout = []\<rparr>"

definition ok :: "json \<Rightarrow> error + response" where
  "ok document = Inr \<lparr>status_code = 200, body = Some document\<rparr>"

definition company_as_text :: json where
  "company_as_text =
     JObj [(''id'', JInt 1), (''username'', JStr ''ann''), (''name'', JStr ''Ann''),
           (''email'', JStr ''ann@acme.org''), (''company'', JStr ''Acme'')]"

definition good_user :: json where
  "good_user =
     JObj [(''id'', JInt 2), (''username'', JStr ''bob''), (''name'', JStr ''Bob''),
           (''email'', JStr ''bob@acme.org''), (''company'', JObj [(''name'', JStr ''Acme'')])]"

definition nameless_user :: json where
  "nameless_user = JObj [(''id'', JInt 1), (''email'', JStr ''ann@acme.org'')]"

definition one_page :: "json list \<Rightarrow> server" where
  "one_page records page_num =
     (if page_num = 1 then ok (JList records) else ok (JList []))"

definition open_task :: json where
  "open_task = JObj [(''title'', JStr ''call''), (''completed'', JBool False)]"


definition null_flag_task :: json where
  "null_flag_task = JObj [(''title'', JStr ''call''), (''completed'', JNull)]"


text \<open>
  A run in which the users endpoint has one page with the given records and the tasks
  endpoint has, for every user, one page with the given tasks.
\<close>

definition env_of :: "json list \<Rightarrow> json list \<Rightarrow> env" where
  "env_of users user_tasks =
     \<lparr>users_server = one_page users,
      todos_server = (\<lambda>user_id. one_page user_tasks),
      str_of = (\<lambda>v. ''?''),
      hashable_slices = True,
      clock = (\<lambda>n i. clock_reading),
      saving = (\<lambda>n i. save_env_of Write_ok)\<rparr>"

definition multiple_choices :: server where
  "multiple_choices page_num =
     (if page_num = 1 then Inr \<lparr>status_code = 300, body = Some (JList [good_user])\<rparr>
      else ok (JList []))"

definition no_tasks :: tasks where
  "no_tasks = \<lparr>cur_tasks = [], comp_tasks = [], cur_total = 0, comp_total = 0\<rparr>"

definition named_malformed_user :: json where
  "named_malformed_user = JObj [(''id'', JInt 1), (''username'', JStr ''ann'')]"

definition bob_first_report :: string where
  "bob_first_report =
     ''# Report for Acme.'' @ newline @ ''Bob <bob@acme.org> 03.11.2026 18:59'' @ newline
       @ ''Total tasks: 1'' @ newline @ newline @ ''## Current tasks (1):'' @ newline
       @ ''- call'' @ newline @ newline @ ''## Completed tasks (0):'' @ newline"

section \<open>Notions used in the statements\<close>

text \<open>
  The difference \<open>get_last_report\<close> computes for a name: the time from the date in the name
  to now, for a name its pattern matches and whose date exists.
\<close>

definition archive_delta :: "datetime \<Rightarrow> string \<Rightarrow> string \<Rightarrow> int option" where
  "archive_delta now username file_name =
     (case re_match (archive_re username) file_name of
        None \<Rightarrow> None
      | Some m \<Rightarrow> (case file_date m of Inl e \<Rightarrow> None | Inr date \<Rightarrow> Some (timedelta now date)))"

text \<open>
  The form of the date in an archival name: what \<open>date_format\<close> builds from the groups of
  a match, \<open>YYYY-MM-DDTHH:MM\<close>.
\<close>

definition timestamp_re :: "re_token list" where
  "timestamp_re =
     [Digits ''year'' 4, Lit CHR ''-'', Digits ''month'' 2, Lit CHR ''-'', Digits ''day'' 2,
      Lit CHR ''T'', Digits ''hour'' 2, Lit CHR '':'', Digits ''minute'' 2]"

definition is_timestamp :: "string \<Rightarrow> bool" where
  "is_timestamp ts = (length ts = 16 \<and> re_match timestamp_re ts \<noteq> None)"

text \<open>The number of characters a token of a pattern matches.\<close>

fun token_width :: "re_token \<Rightarrow> nat" where
  "token_width (Lit c) = 1"
| "token_width Any_char = 1"
| "token_width (Digits name n) = n"

section \<open>Facts about the file operations\<close>

lemmas save_defs = save_report_def written_def check_and_archive_def reconcile_def
  write_report_def validate_file_def get_date_def isfile_def os_rename_def os_remove_def
  print_def report_path_def new_path_def create_filename_def str_date_def read_text_def
  date_format_def group_def date_re_def is_digit_def newline_def

lemmas example_defs = save_env_of_def clock_reading_def listing_of_def known_names_def
  bob_report_def world_bob_def world_bob_archived_def

lemma archive_path_neq_report_path: "new_path username date \<noteq> report_path username"
proof
  assume "new_path username date = report_path username"
  then have "length (new_path username date) = length (report_path username)"
    by simp
  then show False
    by (simp add: create_filename_def report_path_def new_path_def)
qed

lemma report_path_neq_archive_path: "report_path username \<noteq> new_path username date"
  by (rule archive_path_neq_report_path [THEN not_sym])

lemma check_and_archive_returns: "fst (check_and_archive username w) = Inr ()"
  by (auto simp: check_and_archive_def isfile_def get_date_def os_rename_def
      split: option.splits)

lemma check_and_archive_files:
  "files (snd (check_and_archive username w)) =
     (case files w (report_path username) of
        None \<Rightarrow> files w
      | Some old \<Rightarrow>
          (case get_date w (report_path username) of
             Inr date \<Rightarrow>
               ((files w)(report_path username := None))(new_path username date \<mapsto> old)
           | Inl e \<Rightarrow> files w))"
  by (auto simp: check_and_archive_def isfile_def get_date_def os_rename_def
      split: option.splits)

lemma get_date_total: "files w path = Some old \<Longrightarrow> \<exists>date. get_date w path = Inr date"
  by (simp add: get_date_def split: option.splits)

lemma written_report_path:
  "files (written env report username w) (report_path username) =
     (case disk_write env of
        Write_ok \<Rightarrow> Some report
      | Open_failed \<Rightarrow> None
      | Write_torn text \<Rightarrow> Some text)"
  by (auto simp: written_def write_report_def print_def check_and_archive_files
      archive_path_neq_report_path report_path_neq_archive_path get_date_def
      split: write_outcome.splits option.splits)

lemma written_other_path:
  "path \<noteq> report_path username \<Longrightarrow>
     files (written env report username w) path
       = files (snd (check_and_archive username w)) path"
  by (auto simp: written_def write_report_def print_def split: write_outcome.splits)

lemma save_report_verified:
  "validate_file (written env report username w) (report_path username) report = Some True \<Longrightarrow>
     save_report env report username w = (Inr (), written env report username w)"
  by (simp add: save_report_def check_and_archive_returns reconcile_def)

lemma save_report_reconcile:
  "save_report env report username w = reconcile env report username (written env report username w)"
  by (simp add: save_report_def check_and_archive_returns)

lemma reconcile_failed:
  assumes "validate_file w (report_path username) report \<noteq> Some True"
  shows "reconcile env report username w =
     (case get_last_report env username (w\<lparr>files := (files w)(report_path username := None)\<rparr>) of
        Inl e \<Rightarrow> (Inl e, w\<lparr>files := (files w)(report_path username := None)\<rparr>)
      | Inr None \<Rightarrow> (Inr (), w\<lparr>files := (files w)(report_path username := None)\<rparr>)
      | Inr (Some last_report) \<Rightarrow>
          os_rename (''tasks/'' @ last_report) (report_path username)
            (w\<lparr>files := (files w)(report_path username := None)\<rparr>))"
proof (cases "files w (report_path username)")
  case None
  then have e: "w\<lparr>files := (files w)(report_path username := None)\<rparr> = w"
    by (simp add: fun_upd_idem)
  show ?thesis
    unfolding e by (simp add: reconcile_def validate_file_def None)
next
  case (Some stored)
  with assms show ?thesis
    by (simp add: reconcile_def validate_file_def os_remove_def)
qed

lemma save_env_of_simps:
  "today (save_env_of outcome) = clock_reading"
  "disk_write (save_env_of outcome) = outcome"
  "listdir (save_env_of outcome) = listing_of known_names"
  by (simp_all add: save_env_of_def)

lemma get_date_bob_report:
  "files w path = Some bob_report \<Longrightarrow> get_date w path = Inr (Date_str ''2026-11-03T18:59'')"
  by (simp add: get_date_def bob_report_def newline_def read_text_def date_re_def
      date_format_def group_def is_digit_def)

section \<open>C1: the state after a verified save\<close>

text \<open>
  What \<open>re.search\<close> returns is the match of the pattern at some position of the text, and
  what \<open>get_date\<close> builds from a match of its pattern has the form \<open>YYYY-MM-DDTHH:MM\<close>.
\<close>

lemma re_search_is_match:
  "re_search r s = Some m \<Longrightarrow> \<exists>k \<le> length s. re_match r (drop k s) = Some m"
proof (induction s)
  case Nil
  then show ?case by simp
next
  case (Cons c cs)
  show ?case
  proof (cases "re_match r (c # cs)")
    case (Some found)
    with Cons.prems have "re_match r (drop 0 (c # cs)) = Some m"
      by simp
    then show ?thesis by blast
  next
    case None
    with Cons.prems have "re_search r cs = Some m"
      by simp
    from Cons.IH [OF this] obtain k where "k \<le> length cs" "re_match r (drop k cs) = Some m"
      by blast
    then have "Suc k \<le> length (c # cs) \<and> re_match r (drop (Suc k) (c # cs)) = Some m"
      by simp
    then show ?thesis by blast
  qed
qed

lemma re_match_digits_append:
  "length d = n \<Longrightarrow> list_all is_digit d \<Longrightarrow>
     re_match (Digits name n # r) (d @ s)
       = map_option (\<lambda>groups. (name, d) # groups) (re_match r s)"
  by simp

lemma date_match_groups:
  assumes "re_match date_re s = Some m"
  shows "\<exists>dd mm yyyy hh mi.
     m = [(''day'', dd), (''month'', mm), (''year'', yyyy), (''hour'', hh), (''minute'', mi)]
     \<and> length dd = 2 \<and> length mm = 2 \<and> length yyyy = 4 \<and> length hh = 2 \<and> length mi = 2
     \<and> list_all is_digit dd \<and> list_all is_digit mm \<and> list_all is_digit yyyy
     \<and> list_all is_digit hh \<and> list_all is_digit mi"
  using assms
  by (auto simp: date_re_def list_all_iff split: if_splits list.splits dest: in_set_takeD)

lemma date_format_is_timestamp:
  assumes "re_match date_re s = Some m"
  shows "is_timestamp (date_format m)"
proof -
  from date_match_groups [OF assms] obtain dd mm yyyy hh mi where
    m: "m = [(''day'', dd), (''month'', mm), (''year'', yyyy), (''hour'', hh), (''minute'', mi)]"
    and l: "length dd = 2" "length mm = 2" "length yyyy = 4" "length hh = 2" "length mi = 2"
    and d: "list_all is_digit dd" "list_all is_digit mm" "list_all is_digit yyyy"
      "list_all is_digit hh" "list_all is_digit mi"
    by blast
  have f: "date_format m = yyyy @ CHR ''-'' # mm @ CHR ''-'' # dd @ CHR ''T'' # hh @ CHR '':'' # mi @ []"
    by (simp add: m date_format_def group_def)
  have "re_match timestamp_re (date_format m)
          = Some [(''year'', yyyy), (''month'', mm), (''day'', dd), (''hour'', hh), (''minute'', mi)]"
    unfolding f timestamp_re_def using l d by simp
  moreover have "length (date_format m) = 16"
    by (simp add: f l)
  ultimately show ?thesis
    by (simp add: is_timestamp_def)
qed

lemma get_date_is_timestamp:
  "get_date w path = Inr (Date_str ts) \<Longrightarrow> is_timestamp ts"
proof -
  assume g: "get_date w path = Inr (Date_str ts)"
  then obtain stored m where "re_search date_re (read_text stored) = Some m"
    and ts: "ts = date_format m"
    by (auto simp: get_date_def split: option.splits)
  from re_search_is_match [OF this(1)] obtain k
    where "re_match date_re (drop k (read_text stored)) = Some m"
    by blast
  then show ?thesis
    unfolding ts by (rule date_format_is_timestamp)
qed

text \<open>
  \<open>get_date\<close> gives the sentinel exactly when the pattern matches nowhere in the text.
\<close>

lemma re_search_none:
  "re_search r s = None \<Longrightarrow> k \<le> length s \<Longrightarrow> re_match r (drop k s) = None"
proof (induction s arbitrary: k)
  case Nil
  then show ?case by simp
next
  case (Cons c cs)
  from Cons.prems(1) have here: "re_match r (c # cs) = None" and rest: "re_search r cs = None"
    by (auto split: option.splits)
  show ?case
  proof (cases k)
    case 0
    with here show ?thesis by simp
  next
    case (Suc j)
    with Cons.prems(2) have "j \<le> length cs" by simp
    from Cons.IH [OF rest this] show ?thesis
      by (simp add: Suc)
  qed
qed

lemma get_date_zero:
  "get_date w path = Inr Date_zero \<Longrightarrow>
     \<exists>stored. files w path = Some stored
       \<and> (\<forall>k \<le> length (read_text stored). re_match date_re (drop k (read_text stored)) = None)"
  by (auto simp: get_date_def re_search_none split: option.splits)

text \<open>
  The designed behaviour. When the file read back after the write equals the report
  (\<open>validate_file\<close> gives \<open>True\<close>), \<open>save_report\<close> returns and the current-named file reads
  as the report; and when the current-named file of before holds a date, its text is
  stored afterwards under \<open>old_username_YYYY-MM-DDTHH:MM.txt\<close>, with the date reformatted.
\<close>

lemma save_report_archives_dated_report:
  assumes "validate_file (written env report username w) (report_path username) report
             = Some True"
  shows "fst (save_report env report username w) = Inr ()
    \<and> (\<exists>stored. files (snd (save_report env report username w)) (report_path username)
                   = Some stored
          \<and> read_text stored = report)
    \<and> (\<forall>old ts. files w (report_path username) = Some old
           \<and> get_date w (report_path username) = Inr (Date_str ts) \<longrightarrow>
          is_timestamp ts
          \<and> files (snd (save_report env report username w))
              (''tasks/old_'' @ username @ ''_'' @ ts @ ''.txt'') = Some old)"
proof -
  let ?w' = "written env report username w"
  have s: "save_report env report username w = (Inr (), ?w')"
    using assms by (rule save_report_verified)
  have cur: "\<exists>stored. files ?w' (report_path username) = Some stored \<and> read_text stored = report"
    using assms by (auto simp: validate_file_def split: option.splits)
  have arch: "is_timestamp ts
      \<and> files ?w' (''tasks/old_'' @ username @ ''_'' @ ts @ ''.txt'') = Some old"
    if old: "files w (report_path username) = Some old"
      and d: "get_date w (report_path username) = Inr (Date_str ts)" for old ts
  proof -
    have n: "''tasks/old_'' @ username @ ''_'' @ ts @ ''.txt'' = new_path username (Date_str ts)"
      by (simp add: new_path_def create_filename_def str_date_def)
    have "files ?w' (new_path username (Date_str ts)) = Some old"
      using old d
      by (simp add: written_other_path archive_path_neq_report_path check_and_archive_files)
    with get_date_is_timestamp [OF d] show ?thesis
      unfolding n by simp
  qed
  show ?thesis using s cur arch by simp
qed

text \<open>
  C1. The current-named file \<open>tasks/bob.txt\<close> holds a text without a date. \<open>save_report\<close>
  with a write that succeeds verifies the new file and returns; the two files of the
  directory are then the new report and \<open>old_bob_0.txt\<close> with the former text. The former
  text is under no name of the form \<open>old_bob_YYYY-MM-DDTHH:MM.txt\<close>: \<open>get_date\<close> returned the
  integer 0, where its signature announces a string, and \<open>save_report\<close> put it into the
  name.
\<close>

theorem undated_report_archived_under_zero:
  "validate_file (written (save_env_of Write_ok) ''new'' ''bob'' world_undated)
       (report_path ''bob'') ''new'' = Some True
   \<and> get_date world_undated (report_path ''bob'') = Inr Date_zero
   \<and> save_report (save_env_of Write_ok) ''new'' ''bob'' world_undated
       = (Inr (),
          \<lparr>files = [''tasks/bob.txt'' \<mapsto> ''new'', ''tasks/old_bob_0.txt'' \<mapsto> ''no date''],
           stdout = []\<rparr>)
   \<and> is_timestamp ''0'' = False"
proof -
  have f: "files world_undated (report_path ''bob'') = Some ''no date''"
    by (simp add: world_undated_def report_path_def create_filename_def)
  have d: "get_date world_undated (report_path ''bob'') = Inr Date_zero"
    by (simp add: get_date_def f read_text_def date_re_def is_digit_def)
  have h: "validate_file (written (save_env_of Write_ok) ''new'' ''bob'' world_undated)
             (report_path ''bob'') ''new'' = Some True"
    by (simp add: validate_file_def written_report_path save_env_of_def read_text_def)
  have c: "check_and_archive ''bob'' world_undated
             = (Inr (), \<lparr>files = [''tasks/old_bob_0.txt'' \<mapsto> ''no date''], stdout = []\<rparr>)"
    unfolding check_and_archive_def isfile_def f d
    by (auto simp: os_rename_def f world_undated_def report_path_def new_path_def
        create_filename_def str_date_def)
  have w: "written (save_env_of Write_ok) ''new'' ''bob'' world_undated
             = \<lparr>files = [''tasks/bob.txt'' \<mapsto> ''new'', ''tasks/old_bob_0.txt'' \<mapsto> ''no date''],
                stdout = []\<rparr>"
    unfolding written_def c
    by (auto simp: write_report_def save_env_of_def report_path_def create_filename_def)
  have z: "is_timestamp ''0'' = False"
    by (simp add: is_timestamp_def)
  show ?thesis
    using h d z save_report_verified [OF h] by (simp add: w)
qed

section \<open>C10: archiving under a name that is taken\<close>

lemma bob_archive_path:
  "new_path ''bob'' (Date_str ''2026-11-03T18:59'') = ''tasks/old_bob_2026-11-03T18:59.txt''"
  by (simp add: new_path_def create_filename_def str_date_def)

text \<open>
  C10 as it is stated fails when the archived text and the current report are the same
  text, as after three runs within one minute over the same data: the archive step then
  leaves under the archival name the text that was there before.
\<close>

theorem archive_of_same_text_keeps_content:
  "files world_bob_same ''tasks/bob.txt'' = Some bob_report
   \<and> get_date world_bob_same ''tasks/bob.txt'' = Inr (Date_str ''2026-11-03T18:59'')
   \<and> files world_bob_same ''tasks/old_bob_2026-11-03T18:59.txt'' = Some bob_report
   \<and> fst (check_and_archive ''bob'' world_bob_same) = Inr ()
   \<and> files (snd (check_and_archive ''bob'' world_bob_same))
        ''tasks/old_bob_2026-11-03T18:59.txt''
       = files world_bob_same ''tasks/old_bob_2026-11-03T18:59.txt''"
proof -
  have r: "report_path ''bob'' = ''tasks/bob.txt''"
    by (simp add: report_path_def create_filename_def)
  have f: "files world_bob_same ''tasks/bob.txt'' = Some bob_report"
    by (simp add: world_bob_same_def)
  have d: "get_date world_bob_same ''tasks/bob.txt'' = Inr (Date_str ''2026-11-03T18:59'')"
    using f by (rule get_date_bob_report)
  have p: "files world_bob_same ''tasks/old_bob_2026-11-03T18:59.txt'' = Some bob_report"
    by (simp add: world_bob_same_def)
  have "files (snd (check_and_archive ''bob'' world_bob_same))
          ''tasks/old_bob_2026-11-03T18:59.txt'' = Some bob_report"
    by (simp add: check_and_archive_files r f d bob_archive_path)
  with f d p show ?thesis
    by (simp add: check_and_archive_returns)
qed

text \<open>
  C10, amended. When the current report and an existing archival file give the same
  archival name (\<open>get_date\<close> finds in the current report the date of that name), the archive
  step replaces the archival file: the name holds the current report afterwards and the
  current name is free. When the text archived before differs from the current report, it
  is lost: it is no longer under that name, and it has not been moved to another one.
\<close>

theorem archive_step_replaces_archived_file:
  assumes "files w (report_path username) = Some current"
    and "get_date w (report_path username) = Inr date"
    and "files w (new_path username date) = Some previous"
  shows "fst (check_and_archive username w) = Inr ()
    \<and> files (snd (check_and_archive username w))
         = (files w)(report_path username := None, new_path username date \<mapsto> current)
    \<and> files (snd (check_and_archive username w)) (new_path username date) = Some current
    \<and> (previous \<noteq> current \<longrightarrow>
          files (snd (check_and_archive username w)) (new_path username date) \<noteq> Some previous
          \<and> (\<forall>path. files (snd (check_and_archive username w)) path = Some previous \<longrightarrow>
                path \<noteq> new_path username date \<and> files w path = Some previous))"
  using assms
  by (auto simp: check_and_archive_files check_and_archive_returns split: if_splits)

theorem archive_step_replaces_archived_file_witness:
  "files world_bob_archived (report_path ''bob'') = Some bob_report
   \<and> get_date world_bob_archived (report_path ''bob'') = Inr (Date_str ''2026-11-03T18:59'')
   \<and> files world_bob_archived (new_path ''bob'' (Date_str ''2026-11-03T18:59''))
       = Some ''an earlier report''
   \<and> ''an earlier report'' \<noteq> bob_report
   \<and> files (snd (check_and_archive ''bob'' world_bob_archived))
        ''tasks/old_bob_2026-11-03T18:59.txt'' = Some bob_report
   \<and> (\<forall>path. files (snd (check_and_archive ''bob'' world_bob_archived)) path
          \<noteq> Some ''an earlier report'')"
proof -
  have f: "files world_bob_archived (report_path ''bob'') = Some bob_report"
    by (simp add: world_bob_archived_def report_path_def create_filename_def)
  have d: "get_date world_bob_archived (report_path ''bob'')
             = Inr (Date_str ''2026-11-03T18:59'')"
    using f by (rule get_date_bob_report)
  note n = bob_archive_path
  have p: "files world_bob_archived (new_path ''bob'' (Date_str ''2026-11-03T18:59''))
             = Some ''an earlier report''"
    by (simp add: n world_bob_archived_def)
  have q: "''an earlier report'' \<noteq> bob_report"
    by (simp add: bob_report_def)
  have only: "path = new_path ''bob'' (Date_str ''2026-11-03T18:59'')"
    if "files world_bob_archived path = Some ''an earlier report''" for path
    using that q [THEN not_sym] unfolding n
    by (simp add: world_bob_archived_def split: if_splits)
  note t = archive_step_replaces_archived_file [OF f d p]
  have t1: "files (snd (check_and_archive ''bob'' world_bob_archived))
              (new_path ''bob'' (Date_str ''2026-11-03T18:59'')) = Some bob_report"
    using t by blast
  have t3: "files (snd (check_and_archive ''bob'' world_bob_archived)) path
              = Some ''an earlier report'' \<Longrightarrow>
            path \<noteq> new_path ''bob'' (Date_str ''2026-11-03T18:59'')
              \<and> files world_bob_archived path = Some ''an earlier report''" for path
    using t q by blast
  have gone: "files (snd (check_and_archive ''bob'' world_bob_archived)) path
          \<noteq> Some ''an earlier report''" for path
    using t3 [of path] only [of path] by blast
  show ?thesis
    using f d p q t1 gone unfolding n by blast
qed

section \<open>The search for the last report\<close>

text \<open>
  One round of the loop of \<open>get_last_report\<close>, with the two assignments merged.
\<close>

lemma scan_reports_step:
  "scan_reports now username (file_name # file_names) min_dif last_report =
     (case re_match (archive_re username) file_name of
        None \<Rightarrow> scan_reports now username file_names min_dif last_report
      | Some m \<Rightarrow>
          (case file_date m of
             Inl e \<Rightarrow> Inl e
           | Inr date \<Rightarrow>
               (case min_dif of
                  None \<Rightarrow>
                    scan_reports now username file_names (Some (timedelta now date))
                      (Some file_name)
                | Some d \<Rightarrow>
                    if timedelta now date < d
                    then scan_reports now username file_names (Some (timedelta now date))
                           (Some file_name)
                    else scan_reports now username file_names (Some d) last_report)))"
  by (simp split: option.splits sum.splits)

text \<open>
  A name that is returned is listed and matched by the pattern; nothing is returned only
  if no listed name is matched.
\<close>

lemma scan_reports_sound:
  "scan_reports now username file_names min_dif last_report = Inr (Some f) \<Longrightarrow>
     last_report = Some f
     \<or> (f \<in> set file_names \<and> re_match (archive_re username) f \<noteq> None)"
proof (induction file_names arbitrary: min_dif last_report)
  case Nil
  then show ?case by simp
next
  case (Cons file_name file_names)
  from Cons.prems show ?case
    unfolding scan_reports_step
    by (auto split: option.splits sum.splits if_splits dest!: Cons.IH)
qed

lemma scan_reports_kept:
  "scan_reports now username file_names (Some d) (Some f) \<noteq> Inr None"
proof (induction file_names arbitrary: d f)
  case Nil
  then show ?case by simp
next
  case (Cons file_name file_names)
  show ?case
    unfolding scan_reports_step
    by (auto split: option.splits sum.splits if_splits simp: Cons.IH)
qed

lemma scan_reports_none:
  "scan_reports now username file_names None None = Inr None \<Longrightarrow>
     \<forall>f \<in> set file_names. re_match (archive_re username) f = None"
proof (induction file_names)
  case Nil
  then show ?case by simp
next
  case (Cons file_name file_names)
  from Cons.prems show ?case
    unfolding scan_reports_step
    by (auto split: option.splits sum.splits simp: scan_reports_kept dest!: Cons.IH)
qed

lemma scan_reports_none_conv:
  "\<forall>f \<in> set file_names. re_match (archive_re username) f = None \<Longrightarrow>
     scan_reports now username file_names min_dif last_report = Inr last_report"
  by (induction file_names) simp_all

text \<open>The loop keeps the smallest difference met so far.\<close>

lemma scan_reports_minimal:
  assumes "scan_reports now username file_names min_dif last_report = Inr (Some f)"
    and "min_dif = None \<and> last_report = None
         \<or> (\<exists>f0 d0. last_report = Some f0 \<and> min_dif = Some d0
               \<and> archive_delta now username f0 = Some d0)"
  shows "\<exists>d. archive_delta now username f = Some d
    \<and> (\<forall>g \<in> set file_names. \<forall>e. archive_delta now username g = Some e \<longrightarrow> d \<le> e)
    \<and> (\<forall>d0. min_dif = Some d0 \<longrightarrow> d \<le> d0)"
  using assms
proof (induction file_names arbitrary: min_dif last_report)
  case Nil
  then show ?case by auto
next
  case (Cons file_name file_names)
  show ?case
  proof (cases "archive_delta now username file_name")
    case None
    then have "scan_reports now username file_names min_dif last_report = Inr (Some f)"
      using Cons.prems(1) unfolding scan_reports_step
      by (auto simp: archive_delta_def split: option.splits sum.splits)
    from Cons.IH [OF this Cons.prems(2)] None show ?thesis by auto
  next
    case (Some diff)
    show ?thesis
    proof (cases "\<exists>d0. min_dif = Some d0 \<and> \<not> diff < d0")
      case True
      then obtain d0 where d0: "min_dif = Some d0" "\<not> diff < d0" by blast
      then have "scan_reports now username file_names min_dif last_report = Inr (Some f)"
        using Cons.prems(1) Some unfolding scan_reports_step
        by (auto simp: archive_delta_def split: option.splits sum.splits)
      from Cons.IH [OF this Cons.prems(2)] Some d0 show ?thesis by fastforce
    next
      case False
      then have "scan_reports now username file_names (Some diff) (Some file_name)
                   = Inr (Some f)"
        using Cons.prems(1) Some unfolding scan_reports_step
        by (auto simp: archive_delta_def split: option.splits sum.splits if_splits)
      from Cons.IH [OF this] Some
      obtain d where d: "archive_delta now username f = Some d"
        "\<forall>g \<in> set file_names. \<forall>e. archive_delta now username g = Some e \<longrightarrow> d \<le> e"
        "d \<le> diff"
        by auto
      with Some False show ?thesis by fastforce
    qed
  qed
qed

text \<open>
  For a username within the embedding, the pattern matches a prefix of
  \<open>length username + 25\<close> characters, so the current name \<open>username.txt\<close> is never
  matched; and it does not match the archival name of a report without a date,
  \<open>old_username_0.txt\<close>.
\<close>

lemma re_match_length:
  "re_match r s = Some m \<Longrightarrow> sum_list (map token_width r) \<le> length s"
proof (induction r s arbitrary: m rule: re_match.induct)
  case (1 s)
  then show ?case by simp
next
  case (2 c r s)
  then show ?case by (auto split: list.splits if_splits)
next
  case (3 r s)
  then show ?case by (auto split: list.splits if_splits)
next
  case (4 name n r s)
  then show ?case by (fastforce split: if_splits)
qed

lemma archive_re_width:
  assumes "plain_username username"
  shows "sum_list (map token_width (archive_re username)) = length username + 25"
proof -
  have "sum_list (map token_width (map username_token username)) = length username"
    by (induction username) (simp_all add: username_token_def)
  then show ?thesis
    by (simp add: archive_re_def)
qed

lemma archive_match_neq_report_path:
  assumes "plain_username username"
    and m: "re_match (archive_re username) file_name = Some m"
  shows "''tasks/'' @ file_name \<noteq> report_path username"
proof
  assume e: "''tasks/'' @ file_name = report_path username"
  from re_match_length [OF m] have "length username + 25 \<le> length file_name"
    by (simp add: archive_re_width [OF assms(1)])
  moreover from e have "length (''tasks/'' @ file_name) = length (report_path username)"
    by simp
  ultimately show False
    by (simp add: report_path_def create_filename_def)
qed

lemma re_match_username:
  "re_match (map username_token username @ r) (username @ s) = re_match r s"
  by (induction username) (simp_all add: username_token_def)

lemma re_match_literal:
  "re_match (map Lit word @ r) (word @ s) = re_match r s"
  by (induction word) simp_all

lemma archive_re_zero:
  assumes "plain_username username"
  shows "re_match (archive_re username) (create_filename username (Some Date_zero)) = None"
proof -
  define rest where "rest =
    [Lit CHR ''_'', Digits ''year'' 4, Lit CHR ''-'', Digits ''month'' 2, Lit CHR ''-'',
     Digits ''day'' 2, Lit CHR ''T'', Digits ''hour'' 2, Lit CHR '':'', Digits ''minute'' 2,
     Any_char] @ map Lit ''txt''"
  have n: "create_filename username (Some Date_zero) = ''old_'' @ (username @ ''_0.txt'')"
    by (simp add: create_filename_def str_date_def)
  have r: "archive_re username = map Lit ''old_'' @ (map username_token username @ rest)"
    by (simp add: archive_re_def rest_def)
  have "re_match (archive_re username) (create_filename username (Some Date_zero))
          = re_match rest ''_0.txt''"
    by (simp only: n r re_match_literal re_match_username)
  also have "\<dots> = None"
    by (simp add: rest_def is_digit_def)
  finally show ?thesis .
qed

lemma get_last_report_sound:
  "plain_username username \<Longrightarrow> get_last_report env username w = Inr (Some f) \<Longrightarrow>
     f \<in> set (listdir env (files w)) \<and> re_match (archive_re username) f \<noteq> None"
  unfolding get_last_report_def by (drule scan_reports_sound) simp

lemma get_last_report_never_zero:
  "plain_username username \<Longrightarrow>
     get_last_report env username w \<noteq> Inr (Some (create_filename username (Some Date_zero)))"
  using get_last_report_sound [of username env w "create_filename username (Some Date_zero)"]
  by (auto simp: archive_re_zero)

text \<open>
  The rollback, for a write that did not verify and a username within the embedding:
  with no listed name matched by the pattern, the current name is left absent; otherwise
  the file moved to the current name is one with the smallest difference among the listed
  names the pattern matches.
\<close>

lemma rollback_nothing_to_restore:
  assumes "validate_file w (report_path username) report \<noteq> Some True"
    and "\<forall>name \<in> set (listdir env ((files w)(report_path username := None))).
           re_match (archive_re username) name = None"
    and "plain_username username"
  shows "fst (reconcile env report username w) = Inr ()
    \<and> files (snd (reconcile env report username w)) = (files w)(report_path username := None)"
proof -
  have "get_last_report env username (w\<lparr>files := (files w)(report_path username := None)\<rparr>)
          = Inr None"
    using assms(2) by (simp add: get_last_report_def scan_reports_none_conv)
  then show ?thesis
    by (simp add: reconcile_failed [OF assms(1)])
qed

lemma rollback_restores_latest:
  assumes "validate_file w (report_path username) report \<noteq> Some True"
    and "reconcile env report username w = (Inr (), w')"
    and "\<exists>name \<in> set (listdir env ((files w)(report_path username := None))).
           re_match (archive_re username) name \<noteq> None"
    and "plain_username username"
  shows "\<exists>f d. f \<in> set (listdir env ((files w)(report_path username := None)))
    \<and> archive_delta (today env) username f = Some d
    \<and> (\<forall>g \<in> set (listdir env ((files w)(report_path username := None))).
          \<forall>e. archive_delta (today env) username g = Some e \<longrightarrow> d \<le> e)
    \<and> files w (''tasks/'' @ f) \<noteq> None
    \<and> files w' (report_path username) = files w (''tasks/'' @ f)
    \<and> files w' (''tasks/'' @ f) = None"
proof -
  let ?w3 = "w\<lparr>files := (files w)(report_path username := None)\<rparr>"
  let ?names = "listdir env ((files w)(report_path username := None))"
  have g: "get_last_report env username ?w3 = scan_reports (today env) username ?names None None"
    by (simp add: get_last_report_def)
  have not_none: "scan_reports (today env) username ?names None None \<noteq> Inr None"
  proof
    assume "scan_reports (today env) username ?names None None = Inr None"
    from scan_reports_none [OF this] assms(3) show False by auto
  qed
  from assms(2) obtain f where
    f: "scan_reports (today env) username ?names None None = Inr (Some f)"
    and r: "os_rename (''tasks/'' @ f) (report_path username) ?w3 = (Inr (), w')"
    using not_none
    by (auto simp: reconcile_failed [OF assms(1)] g split: sum.splits option.splits)
  from scan_reports_sound [OF f] obtain m where
    inl: "f \<in> set ?names" and m: "re_match (archive_re username) f = Some m"
    by auto
  have neq: "''tasks/'' @ f \<noteq> report_path username"
    using assms(4) m by (rule archive_match_neq_report_path)
  from scan_reports_minimal [OF f] obtain d where
    d: "archive_delta (today env) username f = Some d"
    and least: "\<forall>g \<in> set ?names. \<forall>e. archive_delta (today env) username g = Some e \<longrightarrow> d \<le> e"
    by auto
  from r neq have "files w (''tasks/'' @ f) \<noteq> None
      \<and> files w' (report_path username) = files w (''tasks/'' @ f)
      \<and> files w' (''tasks/'' @ f) = None"
    by (auto simp: os_rename_def split: option.splits)
  with inl d least show ?thesis by blast
qed

section \<open>The search with a dot in the username\<close>

text \<open>
  The username \<open>john.doe\<close> is within the embedding. Its pattern matches the archival
  names of \<open>john.doe\<close> and, the dot standing for any character, those of \<open>john_doe\<close>.
\<close>

lemma plain_john: "plain_username ''john.doe''"
  by (simp add: plain_username_def)

lemmas date_defs = timedelta_def to_microseconds_def to_ordinal_def days_before_year_def
  days_before_month_def is_leap_def file_date_def datetime_new_def days_in_month_def group_def
  int_of_digits_def digit_value_def

lemmas re_defs = archive_re_def username_token_def is_digit_def

lemma match_own:
  "re_match (archive_re ''john.doe'') ''old_john.doe_2024-01-01T10:00.txt'' =
     Some [(''year'', ''2024''), (''month'', ''01''), (''day'', ''01''), (''hour'', ''10''),
           (''minute'', ''00'')]"
  by (simp add: re_defs)

lemma match_other:
  "re_match (archive_re ''john.doe'') ''old_john_doe_2024-06-01T10:00.txt'' =
     Some [(''year'', ''2024''), (''month'', ''06''), (''day'', ''01''), (''hour'', ''10''),
           (''minute'', ''00'')]"
  by (simp add: re_defs)

lemma scan_john:
  "scan_reports clock_reading ''john.doe''
      [''old_john.doe_2024-01-01T10:00.txt'', ''old_john_doe_2024-06-01T10:00.txt''] None None
     = Inr (Some ''old_john_doe_2024-06-01T10:00.txt'')"
  by (simp add: match_own match_other date_defs clock_reading_def)

lemma scan_other:
  "scan_reports clock_reading ''john.doe'' [''old_john_doe_2024-06-01T10:00.txt''] None None
     = Inr (Some ''old_john_doe_2024-06-01T10:00.txt'')"
  by (simp add: match_other date_defs clock_reading_def)

lemma listing_john:
  "listing_of known_names (files world_john)
     = [''old_john.doe_2024-01-01T10:00.txt'', ''old_john_doe_2024-06-01T10:00.txt'']"
  by (simp add: listing_of_def known_names_def world_john_def)

lemma listing_other:
  "listing_of known_names (files world_other) = [''old_john_doe_2024-06-01T10:00.txt'']"
  by (simp add: listing_of_def known_names_def world_other_def)

lemma files_written_open_failed:
  "files w (report_path username) = None \<Longrightarrow>
     files (written (save_env_of Open_failed) report username w) = files w"
  by (simp add: written_def save_env_of_simps write_report_def print_def check_and_archive_def
      isfile_def)

lemma save_report_open_failed:
  assumes "files w (report_path username) = None"
  shows "save_report (save_env_of Open_failed) report username w =
     (case scan_reports clock_reading username (listing_of known_names (files w)) None None of
        Inl e \<Rightarrow> (Inl e, written (save_env_of Open_failed) report username w)
      | Inr None \<Rightarrow> (Inr (), written (save_env_of Open_failed) report username w)
      | Inr (Some last_report) \<Rightarrow>
          os_rename (''tasks/'' @ last_report) (report_path username)
            (written (save_env_of Open_failed) report username w))"
proof -
  have v: "validate_file (written (save_env_of Open_failed) report username w)
             (report_path username) report = None"
    by (simp add: validate_file_def written_report_path save_env_of_simps)
  show ?thesis
    by (simp add: save_report_def check_and_archive_returns reconcile_def v
        get_last_report_def save_env_of_simps files_written_open_failed [OF assms]
        split: sum.splits option.splits)
qed

lemma john_paths:
  "report_path ''john.doe'' = ''tasks/john.doe.txt''"
  "new_path ''john.doe'' (Date_str ''2024-01-01T10:00'') = ''tasks/old_john.doe_2024-01-01T10:00.txt''"
  by (simp_all add: report_path_def new_path_def create_filename_def str_date_def)

text \<open>
  C2. The write of a report for \<open>john.doe\<close> fails (\<open>open\<close> raises, so no file appears) while
  the directory holds an archival file of \<open>john.doe\<close> and a later one of the other user
  \<open>john_doe\<close>. The \<open>.\<close> of the username is a wildcard in the pattern of
  \<open>get_last_report\<close>, so both names match it: \<open>save_report\<close> returns with the report of
  \<open>john_doe\<close> under the current name of \<open>john.doe\<close>, and the archival file of \<open>john.doe\<close>
  is still there under its archival name.
\<close>

theorem rollback_restores_another_users_report:
  "validate_file (written (save_env_of Open_failed) ''new'' ''john.doe'' world_john)
       (report_path ''john.doe'') ''new'' = None
   \<and> files world_john (new_path ''john.doe'' (Date_str ''2024-01-01T10:00''))
       = Some ''report of john.doe''
   \<and> fst (save_report (save_env_of Open_failed) ''new'' ''john.doe'' world_john) = Inr ()
   \<and> files (snd (save_report (save_env_of Open_failed) ''new'' ''john.doe'' world_john))
        (report_path ''john.doe'') = Some ''report of john_doe''
   \<and> files (snd (save_report (save_env_of Open_failed) ''new'' ''john.doe'' world_john))
        (new_path ''john.doe'' (Date_str ''2024-01-01T10:00'')) = Some ''report of john.doe''"
proof -
  have absent: "files world_john (report_path ''john.doe'') = None"
    by (simp add: john_paths world_john_def)
  have w: "files (written (save_env_of Open_failed) ''new'' ''john.doe'' world_john)
             = files world_john"
    using absent by (rule files_written_open_failed)
  have s: "save_report (save_env_of Open_failed) ''new'' ''john.doe'' world_john =
      os_rename ''tasks/old_john_doe_2024-06-01T10:00.txt'' (report_path ''john.doe'')
        (written (save_env_of Open_failed) ''new'' ''john.doe'' world_john)"
    by (simp only: save_report_open_failed [OF absent] listing_john scan_john sum.case option.case append.simps)
  have own: "files world_john ''tasks/old_john.doe_2024-01-01T10:00.txt''
               = Some ''report of john.doe''"
    by (simp add: world_john_def)
  have other: "files world_john ''tasks/old_john_doe_2024-06-01T10:00.txt''
               = Some ''report of john_doe''"
    by (simp add: world_john_def)
  show ?thesis
    using absent by (simp add: s os_rename_def w validate_file_def john_paths own other)
qed

text \<open>
  C3. The write of a report for \<open>john.doe\<close> fails while the directory holds no archival
  file of \<open>john.doe\<close> (no name that \<open>create_filename\<close> builds for this username and a
  date), only one of the other user \<open>john_doe\<close>: after \<open>save_report\<close> returns, the
  current-named file of \<open>john.doe\<close> exists and holds the report of \<open>john_doe\<close>.
\<close>

theorem rollback_without_own_archive:
  "validate_file (written (save_env_of Open_failed) ''new'' ''john.doe'' world_other)
       (report_path ''john.doe'') ''new'' = None
   \<and> (\<forall>date. files world_other (new_path ''john.doe'' date) = None)
   \<and> fst (save_report (save_env_of Open_failed) ''new'' ''john.doe'' world_other) = Inr ()
   \<and> files (snd (save_report (save_env_of Open_failed) ''new'' ''john.doe'' world_other))
        (report_path ''john.doe'') = Some ''report of john_doe''"
proof -
  have absent: "files world_other (report_path ''john.doe'') = None"
    by (simp add: john_paths world_other_def)
  have w: "files (written (save_env_of Open_failed) ''new'' ''john.doe'' world_other)
             = files world_other"
    using absent by (rule files_written_open_failed)
  have s: "save_report (save_env_of Open_failed) ''new'' ''john.doe'' world_other =
      os_rename ''tasks/old_john_doe_2024-06-01T10:00.txt'' (report_path ''john.doe'')
        (written (save_env_of Open_failed) ''new'' ''john.doe'' world_other)"
    by (simp only: save_report_open_failed [OF absent] listing_other scan_other sum.case option.case append.simps)
  have none: "files world_other (new_path ''john.doe'' date) = None" for date
    by (simp add: world_other_def new_path_def create_filename_def)
  have other: "files world_other ''tasks/old_john_doe_2024-06-01T10:00.txt''
               = Some ''report of john_doe''"
    by (simp add: world_other_def)
  show ?thesis
    using none absent by (simp add: s os_rename_def w validate_file_def john_paths other)
qed

text \<open>
  C9. For the username \<open>john.doe\<close>, \<open>get_last_report\<close> returns the name
  \<open>old_john_doe_2024-06-01T10:00.txt\<close>, which is not a name \<open>create_filename\<close> builds for
  \<open>john.doe\<close> and any date: it is an archival name of another username.
\<close>

theorem get_last_report_other_username:
  "get_last_report (save_env_of Open_failed) ''john.doe'' world_other
     = Inr (Some ''old_john_doe_2024-06-01T10:00.txt'')
   \<and> (\<forall>date. ''old_john_doe_2024-06-01T10:00.txt'' \<noteq> create_filename ''john.doe'' (Some date))"
  by (simp add: get_last_report_def save_env_of_simps listing_other scan_other create_filename_def del: scan_reports.simps)

section \<open>The date \<open>get_date\<close> finds\<close>

text \<open>
  \<open>re_search\<close> returns the match at the first position where the pattern matches. So
  \<open>get_date\<close> reformats a timestamp \<open>DD.MM.YYYY HH:MM\<close> of the text if the pattern matches
  nowhere before it.
\<close>

lemma re_search_leftmost:
  assumes "re_match r (drop k s) = Some m"
    and "\<forall>j<k. re_match r (drop j s) = None"
    and "k \<le> length s"
  shows "re_search r s = Some m"
  using assms
proof (induction s arbitrary: k)
  case Nil
  then show ?case by simp
next
  case (Cons c s)
  show ?case
  proof (cases k)
    case 0
    with Cons.prems(1) show ?thesis by simp
  next
    case (Suc n)
    have first: "re_match r (c # s) = None"
      using Cons.prems(2) Suc by (metis drop0 zero_less_Suc)
    have later: "\<forall>j<n. re_match r (drop j s) = None"
      using Cons.prems(2) Suc by (metis Suc_less_eq drop_Suc_Cons)
    have "re_search r s = Some m"
      using Cons.IH [of n] Cons.prems(1,3) Suc later by simp
    with first show ?thesis by simp
  qed
qed

lemma re_match_stamp:
  assumes "length dd = 2" "length mo = 2" "length yyyy = 4" "length hh = 2" "length mi = 2"
    and "list_all is_digit dd" "list_all is_digit mo" "list_all is_digit yyyy"
    and "list_all is_digit hh" "list_all is_digit mi"
  shows "re_match date_re (dd @ ''.'' @ mo @ ''.'' @ yyyy @ '' '' @ hh @ '':'' @ mi @ rest)
    = Some [(''day'', dd), (''month'', mo), (''year'', yyyy), (''hour'', hh), (''minute'', mi)]"
  using assms by (simp add: date_re_def)

lemma get_date_first_stamp:
  assumes "files w path = Some stored"
    and "read_text stored = before @ dd @ ''.'' @ mo @ ''.'' @ yyyy @ '' '' @ hh @ '':'' @ mi @ rest"
    and "length dd = 2" "length mo = 2" "length yyyy = 4" "length hh = 2" "length mi = 2"
    and "list_all is_digit dd" "list_all is_digit mo" "list_all is_digit yyyy"
    and "list_all is_digit hh" "list_all is_digit mi"
    and "\<forall>j<length before. re_match date_re (drop j (read_text stored)) = None"
  shows "get_date w path = Inr (Date_str (yyyy @ ''-'' @ mo @ ''-'' @ dd @ ''T'' @ hh @ '':'' @ mi))"
proof -
  let ?m = "[(''day'', dd), (''month'', mo), (''year'', yyyy), (''hour'', hh), (''minute'', mi)]"
  have "re_match date_re (drop (length before) (read_text stored)) = Some ?m"
    using re_match_stamp [OF assms(3-12)] by (simp add: assms(2))
  then have "re_search date_re (read_text stored) = Some ?m"
    using assms(13) by (rule re_search_leftmost) (simp add: assms(2))
  then show ?thesis
    by (simp add: get_date_def assms(1) date_format_def group_def)
qed

text \<open>
  C4. The current report of \<open>bob\<close> has the header timestamp 03.11.2026 18:59, and its
  company name contains the text 01.01.2000 10:00. \<open>get_date\<close> takes the leftmost match,
  so a save moves the report to the archival name of 2000-01-01T10:00, and no file with
  the archival name of the header timestamp, 2026-11-03T18:59, exists afterwards.
\<close>

theorem archive_named_by_earlier_match:
  "files world_expo (report_path ''bob'') = Some expo_report
   \<and> fst (save_report (save_env_of Write_ok) ''new'' ''bob'' world_expo) = Inr ()
   \<and> files (snd (save_report (save_env_of Write_ok) ''new'' ''bob'' world_expo))
        ''tasks/old_bob_2000-01-01T10:00.txt'' = Some expo_report
   \<and> files (snd (save_report (save_env_of Write_ok) ''new'' ''bob'' world_expo))
        ''tasks/old_bob_2026-11-03T18:59.txt'' = None"
proof -
  have f: "files world_expo (report_path ''bob'') = Some expo_report"
    by (simp add: world_expo_def report_path_def create_filename_def)
  have d: "get_date world_expo (report_path ''bob'') = Inr (Date_str ''2000-01-01T10:00'')"
    by (simp add: get_date_def f expo_report_def newline_def read_text_def date_re_def
        date_format_def group_def is_digit_def)
  have h: "validate_file (written (save_env_of Write_ok) ''new'' ''bob'' world_expo)
             (report_path ''bob'') ''new'' = Some True"
    by (simp add: validate_file_def written_report_path save_env_of_simps read_text_def)
  have s: "save_report (save_env_of Write_ok) ''new'' ''bob'' world_expo
             = (Inr (), written (save_env_of Write_ok) ''new'' ''bob'' world_expo)"
    using h by (rule save_report_verified)
  have r: "report_path ''bob'' = ''tasks/bob.txt''"
    by (simp add: report_path_def create_filename_def)
  have n: "new_path ''bob'' (Date_str ''2000-01-01T10:00'') = ''tasks/old_bob_2000-01-01T10:00.txt''"
    by (simp add: new_path_def create_filename_def str_date_def)
  have a: "files (snd (check_and_archive ''bob'' world_expo)) =
      ((files world_expo)(''tasks/bob.txt'' := None))
        (''tasks/old_bob_2000-01-01T10:00.txt'' \<mapsto> expo_report)"
    using f d by (simp add: check_and_archive_files n) (simp add: r)
  have o: "files world_expo ''tasks/old_bob_2026-11-03T18:59.txt'' = None"
    by (simp add: world_expo_def)
  show ?thesis
    using f o by (simp add: s written_other_path r a)
qed

section \<open>The validators\<close>

lemmas json_defs = subscript_def user_fields_def todo_fields_def validate_user_def
  validate_todo_def print_def

text \<open>
  On a dictionary, \<open>validate_todo\<close> returns a truth value, with its message when a field is
  missing. \<open>validate_user\<close> does so unless \<open>company\<close> is there and is no dictionary.
\<close>

lemma validate_todo_dictionary:
  "validate_todo (JObj items) w =
     (if map_of items ''title'' = None \<or> map_of items ''completed'' = None
      then (Inr False, print [JStr ''ToDo object is malformed''] w)
      else (Inr True, w))"
  by (simp add: validate_todo_def todo_fields_def subscript_def split: option.splits)

lemma subscript_company:
  "subscript c ''name'' =
     (case c of
        JObj company \<Rightarrow>
          (case map_of company ''name'' of Some x \<Rightarrow> Inr x | None \<Rightarrow> Inl KeyError)
      | _ \<Rightarrow> Inl TypeError)"
  by (simp add: subscript_def)

lemma validate_user_dictionary:
  "validate_user (JObj items) w =
     (case map_of items ''company'' of
        None \<Rightarrow> (Inr False, print [JStr ''User object is malformed''] w)
      | Some (JObj company) \<Rightarrow>
          if map_of company ''name'' = None \<or> map_of items ''name'' = None
             \<or> map_of items ''email'' = None
          then (Inr False, print [JStr ''User object is malformed''] w)
          else (Inr True, w)
      | Some other \<Rightarrow> (Inl TypeError, w))"
proof (cases "map_of items ''company''")
  case None
  then show ?thesis
    by (simp add: validate_user_def user_fields_def subscript_def)
next
  case (Some c)
  have u: "user_fields (JObj items) =
      (case subscript c ''name'' of
         Inl e \<Rightarrow> Inl e
       | Inr company \<Rightarrow>
           (case map_of items ''name'' of
              None \<Rightarrow> Inl KeyError
            | Some fullname \<Rightarrow>
                (case map_of items ''email'' of
                   None \<Rightarrow> Inl KeyError
                 | Some email \<Rightarrow> Inr (company, fullname, email))))"
    by (simp add: user_fields_def subscript_def [of "JObj items"] Some
        split: sum.splits option.splits)
  show ?thesis
    by (cases c)
      (simp_all add: validate_user_def u Some subscript_company split: option.splits)
qed

text \<open>
  C7. A user record whose \<open>company\<close> is a string, not a dictionary, has no
  \<open>company.name\<close>; \<open>validate_user\<close> raises \<open>TypeError\<close> on it, prints nothing and returns
  no truth value.
\<close>

theorem validate_user_raises:
  "validate_user company_as_text w = (Inl TypeError, w)"
  by (simp add: json_defs company_as_text_def)

section \<open>The data fetcher\<close>

text \<open>
  A client or server error status raises \<open>HTTPError\<close> with the status; the loop is left
  exactly on a page that is the empty list; the page numbers requested are consecutive,
  and a run of the generator from \<open>page_num = 1\<close> requests 1, 2, and so on; after an
  exception nothing more is yielded.
\<close>

lemma fetch_step_error_status:
  "srv page_num = Inr page \<Longrightarrow> 400 \<le> status_code page \<Longrightarrow> status_code page < 600 \<Longrightarrow>
     fetch_step srv page_num = Raise (HTTPError (status_code page))"
  by (simp add: fetch_step_def raise_for_status_def)

lemma fetch_step_stop:
  "fetch_step srv page_num = Stop \<longleftrightarrow>
     (\<exists>page. srv page_num = Inr page \<and> body page = Some (JList [])
        \<and> \<not> (400 \<le> status_code page \<and> status_code page < 600))"
  by (auto simp: fetch_step_def raise_for_status_def response_json_def
      split: sum.splits option.splits if_splits)

lemma fetch_step_next:
  "fetch_step srv page_num = Yield page next_num \<Longrightarrow> next_num = page_num + 1"
  by (auto simp: fetch_step_def split: sum.splits if_splits)

lemma requested_numbers:
  "\<exists>k\<le>n. requested srv n page_num = [page_num ..< page_num + k]"
proof (induction n arbitrary: page_num)
  case 0
  then show ?case by simp
next
  case (Suc n)
  show ?case
  proof (cases "fetch_step srv page_num")
    case (Yield page next_num)
    then have next_num: "next_num = Suc page_num"
      using fetch_step_next by fastforce
    from Suc.IH [of "Suc page_num"] obtain k where
      k: "k \<le> n" "requested srv n (Suc page_num) = [Suc page_num ..< Suc page_num + k]"
      by blast
    have "requested srv (Suc n) page_num = page_num # [Suc page_num ..< Suc page_num + k]"
      by (simp only: requested.simps Yield step.case next_num k(2))
    also have "\<dots> = [page_num ..< page_num + Suc k]"
      by (simp add: upt_conv_Cons)
    finally show ?thesis
      using k(1) by (intro exI [of _ "Suc k"]) simp
  next
    case Stop
    then have "requested srv (Suc n) page_num = [page_num ..< page_num + 1]"
      by simp
    then show ?thesis
      by (intro exI [of _ 1]) simp
  next
    case (Raise e)
    then have "requested srv (Suc n) page_num = [page_num ..< page_num + 1]"
      by simp
    then show ?thesis
      by (intro exI [of _ 1]) simp
  qed
qed

lemma pages_failed_last:
  "pages srv n page_num = (yielded, Failed e) \<Longrightarrow>
     fetch_step srv (page_num + length yielded) = Raise e"
proof (induction n arbitrary: page_num yielded)
  case 0
  then show ?case by simp
next
  case (Suc n)
  show ?case
  proof (cases "fetch_step srv page_num")
    case (Yield page next_num)
    then have next_num: "next_num = Suc page_num"
      using fetch_step_next by fastforce
    obtain rest how where r: "pages srv n (Suc page_num) = (rest, how)"
      by (cases "pages srv n (Suc page_num)")
    with Suc.prems Yield next_num have "yielded = page # rest" "how = Failed e"
      by simp_all
    with Suc.IH [of "Suc page_num" rest] r show ?thesis by simp
  next
    case Stop
    with Suc.prems show ?thesis by simp
  next
    case (Raise e')
    with Suc.prems show ?thesis by simp
  qed
qed

lemma fetch_one_page:
  "fetch_step (one_page (r # records)) 1 = Yield (JList (r # records)) 2"
  "fetch_step (one_page records) 2 = Stop"
  by (simp_all add: fetch_step_def one_page_def ok_def response_json_def)

text \<open>
  C8. The first response has the status 300 and a body that is a list with one record.
  \<open>raise_for_status\<close> raises nothing for 300, so the fetcher yields the page, requests the
  page 2 and ends there on the empty list, without an error.
\<close>

theorem redirect_status_is_not_raised:
  "fetch_step multiple_choices 1 = Yield (JList [good_user]) 2
   \<and> pages multiple_choices 2 1 = ([JList [good_user]], Exhausted)
   \<and> requested multiple_choices 2 1 = [1, 2]"
proof -
  have a: "fetch_step multiple_choices 1 = Yield (JList [good_user]) 2"
    by (simp add: fetch_step_def multiple_choices_def raise_for_status_def response_json_def)
  have b: "fetch_step multiple_choices 2 = Stop"
    by (simp add: fetch_step_def multiple_choices_def ok_def response_json_def)
  have c: "pages multiple_choices (Suc (Suc 0)) 1 = ([JList [good_user]], Exhausted)"
    by (simp add: a b del: One_nat_def)
  have d: "requested multiple_choices (Suc (Suc 0)) 1 = [1, 2]"
    by (simp add: a b del: One_nat_def)
  show ?thesis using a c d by (simp add: numeral_2_eq_2 del: One_nat_def)
qed

section \<open>The main loop\<close>

text \<open>
  The script first creates the directory \<open>tasks\<close> when it is missing; the files of the
  world are the ones of this directory.
\<close>

text \<open>
  A record that fails the validation is skipped with a second message when it has a
  \<open>username\<close>; without one the message itself raises.
\<close>

lemma malformed_user_with_username_is_skipped:
  "validate_user user w = (Inr False, w1) \<Longrightarrow> subscript user ''username'' = Inr name \<Longrightarrow>
     process_user env n i user w = Some (Inr (), print [name, JStr '' doesn't have required''] w1)"
  by (simp add: process_user_def)

lemma malformed_user_without_username_raises:
  "validate_user user w = (Inr False, w1) \<Longrightarrow> subscript user ''username'' = Inl e \<Longrightarrow>
     process_user env n i user w = Some (Inl e, w1)"
  by (simp add: process_user_def)

lemma validate_nameless:
  "validate_user nameless_user w = (Inr False, print [JStr ''User object is malformed''] w)"
  by (simp add: subscript_def user_fields_def validate_user_def nameless_user_def)

lemma process_nameless:
  "process_user env n i nameless_user w
     = Some (Inl KeyError, print [JStr ''User object is malformed''] w)"
  by (simp add: process_user_def validate_nameless) (simp add: subscript_def nameless_user_def)

text \<open>
  C5. The first page of users holds a record without \<open>name\<close>, \<open>company\<close> and \<open>username\<close>
  and then a well-formed record. \<open>validate_user\<close> prints its message and returns
  \<open>False\<close>; the diagnostic of the main loop then reads \<open>user["username"]\<close> and raises
  \<open>KeyError\<close>, which ends the run: the second record is never processed and no report is
  written.
\<close>

theorem malformed_user_aborts_batch:
  "main (env_of [nameless_user, good_user] [open_task]) world_empty
     = Some (Inl KeyError, print [JStr ''User object is malformed''] world_empty)"
proof -
  have s: "users_server (env_of [nameless_user, good_user] [open_task])
             = one_page [nameless_user, good_user]"
    by (simp add: env_of_def)
  have f: "fetch_step (one_page [nameless_user, good_user]) 1
             = Yield (JList [nameless_user, good_user]) 2"
    by (simp add: fetch_step_def one_page_def ok_def response_json_def)
  show ?thesis
    unfolding main_def
    by (subst user_pages.simps) (simp add: s f iterate_def process_nameless del: One_nat_def)
qed

text \<open>
  The same batch with a \<open>username\<close> in the malformed record runs to its end and writes the
  report of the second user.
\<close>

lemma todo_pages_one_page:
  "todo_pages p (one_page (t # user_tasks)) 1 acc w =
     (case add_tasks p (t # user_tasks) acc w of
        (Inl e, w1) \<Rightarrow> Some (Inl e, w1)
      | (Inr acc1, w1) \<Rightarrow> Some (Inr acc1, w1))"
proof -
  have stop: "todo_pages p (one_page (t # user_tasks)) 2 acc1 w1 = Some (Inr acc1, w1)"
    for acc1 w1
    by (subst todo_pages.simps) (simp add: fetch_one_page)
  show ?thesis
    by (subst todo_pages.simps)
      (simp add: fetch_one_page iterate_def stop del: add_tasks.simps One_nat_def
        split: prod.splits sum.splits)
qed

lemma good_user_fields:
  "user_fields good_user = Inr (JStr ''Acme'', JStr ''Bob'', JStr ''bob@acme.org'')"
  "subscript good_user ''id'' = Inr (JInt 2)"
  "subscript good_user ''username'' = Inr (JStr ''bob'')"
  by (simp_all add: user_fields_def subscript_def good_user_def)

lemma strftime_clock_reading: "strftime clock_reading = ''03.11.2026 18:59''"
  by (simp add: strftime_def clock_reading_def zero_pad_def)

lemma open_task_added:
  "add_task p open_task no_tasks w
     = (Inr \<lparr>cur_tasks = ''- call'' @ newline, comp_tasks = [], cur_total = 1,
             comp_total = 0\<rparr>, w)"
  by (simp add: add_task_def json_defs open_task_def no_tasks_def py_len_def eq_bool_def
      task_line_def)

lemma create_report_good_user:
  "create_report (env_of users [open_task]) n i good_user w = Some (Inr (Some bob_first_report), w)"
proof -
  have t: "todos_server (env_of users [open_task]) = (\<lambda>user_id. one_page [open_task])"
    and c: "clock (env_of users [open_task]) = (\<lambda>n i. clock_reading)"
    by (simp_all add: env_of_def)
  have n: "\<lparr>cur_tasks = [], comp_tasks = [], cur_total = 0, comp_total = 0\<rparr> = no_tasks"
    by (simp add: no_tasks_def)
  show ?thesis
    by (simp add: create_report_def good_user_fields t c n todo_pages_one_page open_task_added
        strftime_clock_reading render_def format_field_def bob_first_report_def newline_def
        del: One_nat_def)
qed

lemma save_first_report:
  "files w (report_path ''bob'') = None \<Longrightarrow>
     save_report (save_env_of Write_ok) bob_first_report ''bob'' w
       = (Inr (), w\<lparr>files := (files w)(''tasks/bob.txt'' \<mapsto> bob_first_report)\<rparr>)"
proof -
  assume a: "files w (report_path ''bob'') = None"
  have rt: "read_text bob_first_report = bob_first_report"
    by (simp add: read_text_def bob_first_report_def newline_def)
  have wr: "written (save_env_of Write_ok) bob_first_report ''bob'' w
              = w\<lparr>files := (files w)(report_path ''bob'' \<mapsto> bob_first_report)\<rparr>"
    using a by (simp add: written_def check_and_archive_def isfile_def write_report_def
        save_env_of_simps)
  have "validate_file (written (save_env_of Write_ok) bob_first_report ''bob'' w)
          (report_path ''bob'') bob_first_report = Some True"
    by (simp add: validate_file_def wr rt)
  from save_report_verified [OF this] show ?thesis
    by (simp add: wr) (simp add: report_path_def create_filename_def)
qed

lemma process_good_user:
  "files w (report_path ''bob'') = None \<Longrightarrow>
     process_user (env_of users [open_task]) n i good_user w
       = Some (Inr (), w\<lparr>files := (files w)(''tasks/bob.txt'' \<mapsto> bob_first_report)\<rparr>)"
proof -
  assume a: "files w (report_path ''bob'') = None"
  have v: "validate_user good_user w = (Inr True, w)"
    by (simp add: validate_user_def good_user_fields)
  have s: "saving (env_of users [open_task]) n i = save_env_of Write_ok"
    by (simp add: env_of_def)
  have r: "replace_slash ''bob'' = ''bob''"
    by (simp add: replace_slash_def)
  show ?thesis
    by (simp add: process_user_def v create_report_good_user good_user_fields s r
        save_first_report [OF a])
qed

lemma named_malformed_user_skipped:
  "process_user env n i named_malformed_user w
     = Some (Inr (), print [JStr ''ann'', JStr '' doesn't have required'']
                       (print [JStr ''User object is malformed''] w))"
proof -
  have "validate_user named_malformed_user w
          = (Inr False, print [JStr ''User object is malformed''] w)"
    by (simp add: validate_user_def user_fields_def subscript_def named_malformed_user_def)
  moreover have "subscript named_malformed_user ''username'' = Inr (JStr ''ann'')"
    by (simp add: subscript_def named_malformed_user_def)
  ultimately show ?thesis
    by (rule malformed_user_with_username_is_skipped)
qed

lemma batch_continues_after_named_malformed_user:
  "main (env_of [named_malformed_user, good_user] [open_task]) world_empty
     = Some (Inr (),
         \<lparr>files = [''tasks/bob.txt'' \<mapsto> bob_first_report],
          stdout = [[JStr ''User object is malformed''],
                    [JStr ''ann'', JStr '' doesn't have required'']]\<rparr>)"
proof -
  let ?env = "env_of [named_malformed_user, good_user] [open_task]"
  have s: "users_server ?env = one_page [named_malformed_user, good_user]"
    by (simp add: env_of_def)
  have stop: "user_pages ?env 2 w = Some (Inr (), w)" for w
    by (subst user_pages.simps) (simp add: s fetch_one_page)
  have a: "files (print x (print y world_empty)) (report_path ''bob'') = None" for x y
    by (simp add: print_def world_empty_def)
  have "main ?env world_empty
      = Some (Inr (),
          (print [JStr ''ann'', JStr '' doesn't have required'']
             (print [JStr ''User object is malformed''] world_empty))
          \<lparr>files := (files (print [JStr ''ann'', JStr '' doesn't have required'']
                              (print [JStr ''User object is malformed''] world_empty)))
                      (''tasks/bob.txt'' \<mapsto> bob_first_report)\<rparr>)"
    unfolding main_def
    by (subst user_pages.simps)
      (simp add: s fetch_one_page iterate_def named_malformed_user_skipped
        process_good_user [OF a] stop del: One_nat_def)
  then show ?thesis
    by (simp add: print_def world_empty_def)
qed

section \<open>C6: tasks whose flag is no boolean\<close>












end
